theory Spec2Isabelle
  imports Complex_Main
begin

section \<open>The PNG / WebP converter of \<^verbatim>\<open>app/routes/home.tsx\<close>\<close>

text \<open>
  The route component of \<^verbatim>\<open>home.tsx\<close> scans a directory, asks for permission and converts
  the matching images one by one. Everything it does goes through objects of the browser
  (directory and file handles, the canvas, \<^verbatim>\<open>createImageBitmap\<close>), so the embedding has
  three layers:
  \<^item> the browser objects, as records holding what their methods answer;
  \<^item> the component state of \<^verbatim>\<open>Home\<close> together with the trace of the calls made to the
    browser, threaded through every function;
  \<^item> the functions of the file, in the order of the file, with \<^verbatim>\<open>await\<close> as
    sequencing and a rejected promise or a \<^verbatim>\<open>throw\<close> as the left summand of the result.
\<close>

subsection \<open>Texts, thrown values and browser data\<close>

text \<open>
  The status and error texts of the source are Japanese string literals; each literal is
  a constructor here. \<open>HostMessage\<close> is the \<^verbatim>\<open>message\<close> of an \<^verbatim>\<open>Error\<close> raised by
  the browser.
\<close>

datatype message =
    HostMessage string
  | CanvasContextFailed      \<comment> \<open>line 409\<close>
  | ImageLoadFailed          \<comment> \<open>line 440\<close>
  | BlobFailed               \<comment> \<open>line 461\<close>
  | ConversionFailed         \<comment> \<open>line 170, the text used when the thrown value is no \<^verbatim>\<open>Error\<close>\<close>
  | DirectoryReadFailed      \<comment> \<open>line 97, likewise\<close>

text \<open>A thrown value: \<^verbatim>\<open>error instanceof Error\<close> holds for \<open>Error\<close> only.\<close>

datatype thrown = Error message | NonError

datatype PermissionMode = Read | ReadWrite

datatype PermissionState = Granted | Denied | Prompt

datatype ConversionDirection = PngToWebp | WebpToPng

record File =
  file_size :: nat
  file_type :: string
  file_lastModified :: nat

record Blob =
  blob_size :: nat
  blob_type :: string

record ImageBitmap =
  bitmap_width :: nat
  bitmap_height :: nat

record HTMLImageElement =
  img_width :: nat
  img_height :: nat

record HTMLCanvasElement =
  canvas_width :: nat
  canvas_height :: nat

text \<open>
  The calls made to the browser, in the order they are made. A file handle has no name
  of its own, so the calls on one carry the name the program holds for it.
\<close>

datatype event =
    QueryPermission PermissionMode
  | RequestPermission PermissionMode
  | Entries
  | GetFile string
  | CreateImageBitmap
  | CreateObjectURL
  | ImageLoad
  | GetContext
  | DrawImage
  | ToBlob string "rat option"
  | BitmapClose
  | RevokeObjectURL
  | GetFileHandle string
  | CreateWritable string
  | Write string Blob
  | Close string

text \<open>
  A browser object is the record of what its methods answer: \<open>Inl\<close> a rejection,
  \<open>Inr\<close> the value. The methods of a directory handle are given the calls made so far,
  since the listing and the permission state of a directory change while the program
  runs. A method that may be missing (\<^verbatim>\<open>typeof \<dots> !== "function"\<close>) is an option.
\<close>

record FileSystemFileHandle =
  getFile :: "thrown + File"

datatype FileSystemHandle = FileKind FileSystemFileHandle | DirectoryKind

record FileSystemWritableFileStream =
  stream_write :: "Blob \<Rightarrow> thrown + unit"
  stream_close :: "thrown + unit"

record WritableFileHandle =
  createWritable :: "thrown + FileSystemWritableFileStream"

text \<open>
  \<open>entries\<close> is the async iterator of the directory: the pairs it yields and, when the
  iteration then rejects, the thrown value.
\<close>

record FileSystemDirectoryHandle =
  queryPermission :: "(PermissionMode \<Rightarrow> event list \<Rightarrow> thrown + PermissionState) option"
  requestPermission :: "(PermissionMode \<Rightarrow> event list \<Rightarrow> thrown + PermissionState) option"
  entries :: "event list \<Rightarrow> (string \<times> FileSystemHandle) list \<times> thrown option"
  getFileHandle :: "string \<Rightarrow> event list \<Rightarrow> thrown + WritableFileHandle"

text \<open>
  The globals the file uses. \<open>loadImage\<close> is the \<^verbatim>\<open>Image\<close> element of the fallback:
  \<open>None\<close> when \<^verbatim>\<open>onerror\<close> fires. \<open>getContext\<close> answers whether a 2d context was
  obtained; \<open>toBlob\<close> answers what the callback receives (\<open>None\<close> for \<^verbatim>\<open>null\<close>).
\<close>

record window =
  createImageBitmap :: "(File \<Rightarrow> thrown + ImageBitmap) option"
  loadImage :: "File \<Rightarrow> HTMLImageElement option"
  getContext :: "HTMLCanvasElement \<Rightarrow> bool"
  drawImage :: "HTMLCanvasElement \<Rightarrow> thrown + unit"
  toBlob :: "HTMLCanvasElement \<Rightarrow> string \<Rightarrow> rat option \<Rightarrow> thrown + Blob option"
  localeCompare :: "string \<Rightarrow> string \<Rightarrow> int"

subsection \<open>The component state\<close>

record ImageEntry =
  name :: string
  handle :: FileSystemFileHandle
  entry_size :: nat
  entry_type :: string
  lastModified :: nat

text \<open>The status line: one constructor for each text \<^verbatim>\<open>setStatus\<close> is given.\<close>

datatype status =
    Loading                          \<comment> \<open>line 79\<close>
  | NeedReadPermission               \<comment> \<open>line 84\<close>
  | Loaded nat                       \<comment> \<open>line 92\<close>
  | NothingFound                     \<comment> \<open>line 93\<close>
  | StatusMessage message            \<comment> \<open>lines 98 and 124\<close>
  | NoTargets                        \<comment> \<open>line 138\<close>
  | NeedWritePermission              \<comment> \<open>line 144\<close>
  | Running ConversionDirection nat  \<comment> \<open>line 149, the label of the direction and the count\<close>
  | Converting string                \<comment> \<open>line 153\<close>
  | Completed                        \<comment> \<open>line 175\<close>

text \<open>
  A line of the log: the success line of line 164 with the source name, the new name and
  the size of the blob (\<^verbatim>\<open>formatBytes\<close> renders it), or the failure line of line 171.
\<close>

datatype log_line =
    LogSuccess string string nat
  | LogFailure string message

record state =
  directoryHandle :: "FileSystemDirectoryHandle option"
  images :: "ImageEntry list"
  status :: "status option"
  logs :: "log_line list"
  isScanning :: bool
  isConverting :: bool
  trace :: "event list"

subsection \<open>Sequencing, exceptions and calls to the browser\<close>

type_synonym 'a io = "state \<Rightarrow> (thrown + 'a) \<times> state"

definition ret_io :: "'a \<Rightarrow> 'a io" where
  "ret_io x s = (Inr x, s)"

definition throw_io :: "thrown \<Rightarrow> 'a io" where
  "throw_io e s = (Inl e, s)"

definition bind_io :: "'a io \<Rightarrow> ('a \<Rightarrow> 'b io) \<Rightarrow> 'b io" where
  "bind_io m f s = (case m s of (Inl e, s') \<Rightarrow> (Inl e, s') | (Inr x, s') \<Rightarrow> f x s')"

definition try_catch :: "'a io \<Rightarrow> (thrown \<Rightarrow> 'a io) \<Rightarrow> 'a io" where
  "try_catch m h s = (case m s of (Inl e, s') \<Rightarrow> h e s' | (Inr x, s') \<Rightarrow> (Inr x, s'))"

definition try_finally :: "'a io \<Rightarrow> unit io \<Rightarrow> 'a io" where
  "try_finally m fin s =
     (case m s of (r, s') \<Rightarrow>
        (case fin s' of (Inl e, s'') \<Rightarrow> (Inl e, s'') | (Inr u, s'') \<Rightarrow> (r, s'')))"

text \<open>
  A call to the browser is recorded in the trace and gives the browser's answer. Every
  call is taken to answer: a promise that never settles is outside the model.
\<close>

definition host_call :: "event \<Rightarrow> (thrown + 'a) \<Rightarrow> 'a io" where
  "host_call ev r s = (r, s\<lparr>trace := trace s @ [ev]\<rparr>)"

definition host_call_dir :: "event \<Rightarrow> (event list \<Rightarrow> thrown + 'a) \<Rightarrow> 'a io" where
  "host_call_dir ev f s = host_call ev (f (trace s)) s"

text \<open>\<^verbatim>\<open>for (const x of xs) body\<close>: the body runs on each element until one throws.\<close>

primrec for_of :: "'a list \<Rightarrow> ('a \<Rightarrow> unit io) \<Rightarrow> unit io" where
  "for_of [] body s = (Inr (), s)"
| "for_of (x # xs) body s =
     (case body x s of (Inl e, s') \<Rightarrow> (Inl e, s') | (Inr u, s') \<Rightarrow> for_of xs body s')"

definition setStatus :: "status \<Rightarrow> unit io" where
  "setStatus st s = (Inr (), s\<lparr>status := Some st\<rparr>)"

definition setImages :: "ImageEntry list \<Rightarrow> unit io" where
  "setImages items s = (Inr (), s\<lparr>images := items\<rparr>)"

definition setIsScanning :: "bool \<Rightarrow> unit io" where
  "setIsScanning b s = (Inr (), s\<lparr>isScanning := b\<rparr>)"

definition setIsConverting :: "bool \<Rightarrow> unit io" where
  "setIsConverting b s = (Inr (), s\<lparr>isConverting := b\<rparr>)"

subsection \<open>The log (lines 69-71)\<close>

text \<open>\<^verbatim>\<open>setLogs((prev) => [entry, ...prev].slice(0, 20))\<close>\<close>

definition appendLog :: "log_line \<Rightarrow> unit io" where
  "appendLog entry s = (Inr (), s\<lparr>logs := take 20 (entry # logs s)\<rparr>)"

subsection \<open>File names (lines 331-341)\<close>

text \<open>
  A name is a \<open>string\<close>. \<open>toLowerCase\<close> maps the letters \<open>A\<close> to \<open>Z\<close> and leaves every
  other character: no character outside them lower-cases to a character of
  \<^verbatim>\<open>.png\<close> or \<^verbatim>\<open>.webp\<close>, the only suffixes the file tests.
\<close>

definition toLowerCase_char :: "char \<Rightarrow> char" where
  "toLowerCase_char c =
     (let n = (of_char c :: nat) in if 65 \<le> n \<and> n \<le> 90 then char_of (n + 32) else c)"

definition toLowerCase :: "string \<Rightarrow> string" where
  "toLowerCase s = map toLowerCase_char s"

definition endsWith :: "string \<Rightarrow> string \<Rightarrow> bool" where
  "endsWith s searchString =
     (length searchString \<le> length s \<and> drop (length s - length searchString) s = searchString)"

text \<open>\<^verbatim>\<open>lastIndexOf\<close> of a one-character string: the last index of the character, or -1.\<close>

primrec lastIndexOf :: "string \<Rightarrow> char \<Rightarrow> int" where
  "lastIndexOf [] c = - 1"
| "lastIndexOf (x # xs) c =
     (let r = lastIndexOf xs c in if r \<noteq> - 1 then r + 1 else if x = c then 0 else - 1)"

definition hasExtension :: "string \<Rightarrow> string \<Rightarrow> bool" where
  "hasExtension nm extension = endsWith (toLowerCase nm) extension"

definition replaceExtension :: "string \<Rightarrow> string \<Rightarrow> string" where
  "replaceExtension fileName nextExtension =
     (let index = lastIndexOf fileName (CHR ''.'') in
      if index = - 1 then fileName @ nextExtension
      else take (nat index) fileName @ nextExtension)"

subsection \<open>Permission (lines 382-399)\<close>

definition ensurePermission :: "FileSystemDirectoryHandle \<Rightarrow> PermissionMode \<Rightarrow> bool io" where
  "ensurePermission permissionHandle mode =
     (case (queryPermission permissionHandle, requestPermission permissionHandle) of
        (Some query, Some request) \<Rightarrow>
          bind_io (host_call_dir (QueryPermission mode) (query mode)) (\<lambda>current.
            if current = Granted then ret_io True
            else if current = Denied then ret_io False
            else bind_io (host_call_dir (RequestPermission mode) (request mode)) (\<lambda>result.
              ret_io (result = Granted)))
      | _ \<Rightarrow> ret_io True)"

subsection \<open>The scan (lines 343-363)\<close>

definition SUPPORTED_MIME_TYPES :: "string set" where
  "SUPPORTED_MIME_TYPES = {''image/png'', ''image/webp''}"

text \<open>
  \<^verbatim>\<open>Array.prototype.sort\<close> with a comparator \<open>cmp\<close>. ECMAScript asks for a stable sort
  and leaves the order open when the comparator is not consistent; the model is the
  stable insertion sort, which puts \<open>x\<close> before the first \<open>y\<close> with \<open>cmp x y \<le> 0\<close>.
\<close>

primrec insert_cmp :: "('a \<Rightarrow> 'a \<Rightarrow> int) \<Rightarrow> 'a \<Rightarrow> 'a list \<Rightarrow> 'a list" where
  "insert_cmp cmp x [] = [x]"
| "insert_cmp cmp x (y # ys) = (if cmp x y \<le> 0 then x # y # ys else y # insert_cmp cmp x ys)"

primrec sort_cmp :: "('a \<Rightarrow> 'a \<Rightarrow> int) \<Rightarrow> 'a list \<Rightarrow> 'a list" where
  "sort_cmp cmp [] = []"
| "sort_cmp cmp (x # xs) = insert_cmp cmp x (sort_cmp cmp xs)"

text \<open>The entry pushed for a file child (lines 353 to 359).\<close>

definition entry_of :: "string \<Rightarrow> FileSystemFileHandle \<Rightarrow> File \<Rightarrow> ImageEntry" where
  "entry_of nm fileHandle file =
     \<lparr>name = nm, handle = fileHandle, entry_size = file_size file,
      entry_type = file_type file, lastModified = file_lastModified file\<rparr>"

text \<open>The \<^verbatim>\<open>for await\<close> loop, on the pairs the iterator yields.\<close>

primrec collect_loop :: "(string \<times> FileSystemHandle) list \<Rightarrow> ImageEntry list \<Rightarrow> ImageEntry list io" where
  "collect_loop [] result s = (Inr result, s)"
| "collect_loop (item # rest) result s =
     (case snd item of
        DirectoryKind \<Rightarrow> collect_loop rest result s
      | FileKind fileHandle \<Rightarrow>
          (case host_call (GetFile (fst item)) (getFile fileHandle) s of
             (Inl e, s') \<Rightarrow> (Inl e, s')
           | (Inr file, s') \<Rightarrow>
               if file_type file \<notin> SUPPORTED_MIME_TYPES then collect_loop rest result s'
               else collect_loop rest (result @ [entry_of (fst item) fileHandle file]) s'))"

definition collectImageEntries :: "window \<Rightarrow> FileSystemDirectoryHandle \<Rightarrow> ImageEntry list io" where
  "collectImageEntries w dir =
     bind_io (host_call_dir Entries (\<lambda>tr. Inr (entries dir tr))) (\<lambda>iterable.
     bind_io (collect_loop (fst iterable) []) (\<lambda>result.
       case snd iterable of
         Some e \<Rightarrow> throw_io e
       | None \<Rightarrow> ret_io (sort_cmp (\<lambda>a b. localeCompare w (name a) (name b)) result)))"

subsection \<open>Conversion of one file (lines 401-468)\<close>

record RasterizedSource =
  width :: nat
  height :: nat
  draw :: "HTMLCanvasElement \<Rightarrow> unit io"
  cleanup :: "unit io"

definition rasterize :: "window \<Rightarrow> File \<Rightarrow> RasterizedSource io" where
  "rasterize w file =
     (case createImageBitmap w of
        Some decode \<Rightarrow>
          bind_io (host_call CreateImageBitmap (decode file)) (\<lambda>bitmap.
            ret_io \<lparr>width = bitmap_width bitmap, height = bitmap_height bitmap,
              draw = (\<lambda>context. host_call DrawImage (drawImage w context)),
              cleanup = host_call BitmapClose (Inr ())\<rparr>)
      | None \<Rightarrow>
          bind_io (host_call CreateObjectURL (Inr ())) (\<lambda>objectUrl.
          bind_io (host_call ImageLoad
                    (case loadImage w file of
                       Some loaded \<Rightarrow> Inr loaded
                     | None \<Rightarrow> Inl (Error ImageLoadFailed))) (\<lambda>img.
            ret_io \<lparr>width = img_width img, height = img_height img,
              draw = (\<lambda>context. host_call DrawImage (drawImage w context)),
              cleanup = host_call RevokeObjectURL (Inr ())\<rparr>)))"

definition canvasToBlob :: "window \<Rightarrow> HTMLCanvasElement \<Rightarrow> string \<Rightarrow> Blob io" where
  "canvasToBlob w canvas mimeType =
     (let quality = (if mimeType = ''image/webp'' then Some (92 / 100) else None) in
      bind_io (host_call (ToBlob mimeType quality) (toBlob w canvas mimeType quality)) (\<lambda>blob.
        case blob of
          Some b \<Rightarrow> ret_io b
        | None \<Rightarrow> throw_io (Error BlobFailed)))"

definition convertWithCanvas :: "window \<Rightarrow> File \<Rightarrow> string \<Rightarrow> Blob io" where
  "convertWithCanvas w file mimeType =
     bind_io (rasterize w file) (\<lambda>source.
       let canvas = \<lparr>canvas_width = width source, canvas_height = height source\<rparr> in
       bind_io (host_call GetContext (Inr (getContext w canvas))) (\<lambda>context.
         if \<not> context then
           bind_io (cleanup source) (\<lambda>u. throw_io (Error CanvasContextFailed))
         else
           bind_io (draw source canvas) (\<lambda>u.
           bind_io (canvasToBlob w canvas mimeType) (\<lambda>blob.
           bind_io (cleanup source) (\<lambda>u.
           ret_io blob)))))"

subsection \<open>The component (lines 12-32 and 73-180)\<close>

text \<open>The \<^verbatim>\<open>label\<close> of a direction is what \<open>Running\<close> shows, and is no field here.\<close>

record DirectionConfig =
  sourceExt :: string
  targetExt :: string
  mime :: string

primrec DIRECTION_CONFIG :: "ConversionDirection \<Rightarrow> DirectionConfig" where
  "DIRECTION_CONFIG PngToWebp =
     \<lparr>sourceExt = ''.png'', targetExt = ''.webp'', mime = ''image/webp''\<rparr>"
| "DIRECTION_CONFIG WebpToPng =
     \<lparr>sourceExt = ''.webp'', targetExt = ''.png'', mime = ''image/png''\<rparr>"

definition message_or :: "message \<Rightarrow> thrown \<Rightarrow> message" where
  "message_or fallback error = (case error of Error m \<Rightarrow> m | NonError \<Rightarrow> fallback)"

definition refreshDirectory :: "window \<Rightarrow> FileSystemDirectoryHandle option \<Rightarrow> unit io" where
  "refreshDirectory w incoming s =
     (case (case incoming of Some h \<Rightarrow> Some h | None \<Rightarrow> directoryHandle s) of
        None \<Rightarrow> (Inr (), s)
      | Some dir \<Rightarrow>
          bind_io (setIsScanning True) (\<lambda>u.
          bind_io (setStatus Loading) (\<lambda>u.
          try_finally
            (try_catch
               (bind_io (ensurePermission dir Read) (\<lambda>granted.
                  if \<not> granted then setStatus NeedReadPermission
                  else
                    bind_io (collectImageEntries w dir) (\<lambda>items.
                    bind_io (setImages items) (\<lambda>u.
                    setStatus (if items \<noteq> [] then Loaded (length items) else NothingFound)))))
               (\<lambda>error. setStatus (StatusMessage (message_or DirectoryReadFailed error))))
            (setIsScanning False))) s)"

text \<open>
  Lines 153 to 162: the sub-steps of one entry, up to the closed stream. They give the
  new name and the blob, which the success line of the log shows.
\<close>

definition convert_steps ::
    "window \<Rightarrow> FileSystemDirectoryHandle \<Rightarrow> DirectionConfig \<Rightarrow> ImageEntry \<Rightarrow> (string \<times> Blob) io" where
  "convert_steps w dir config candidate =
     bind_io (setStatus (Converting (name candidate))) (\<lambda>u.
     bind_io (host_call (GetFile (name candidate)) (getFile (handle candidate))) (\<lambda>file.
     bind_io (convertWithCanvas w file (mime config)) (\<lambda>blob.
       let newName = replaceExtension (name candidate) (targetExt config) in
       bind_io (host_call_dir (GetFileHandle newName) (getFileHandle dir newName)) (\<lambda>newHandle.
       bind_io (host_call (CreateWritable newName) (createWritable newHandle)) (\<lambda>writable.
       bind_io (host_call (Write newName blob) (stream_write writable blob)) (\<lambda>u.
       bind_io (host_call (Close newName) (stream_close writable)) (\<lambda>u.
       ret_io (newName, blob))))))))"

text \<open>The lines of the log: the template of line 164 and that of lines 167 to 171.\<close>

definition success_line :: "ImageEntry \<Rightarrow> string \<times> Blob \<Rightarrow> log_line" where
  "success_line candidate done = LogSuccess (name candidate) (fst done) (blob_size (snd done))"

definition failure_line :: "ImageEntry \<Rightarrow> thrown \<Rightarrow> log_line" where
  "failure_line candidate error = LogFailure (name candidate) (message_or ConversionFailed error)"

text \<open>Lines 152 to 172: the body of the loop, with its \<^verbatim>\<open>try\<close> and \<^verbatim>\<open>catch\<close>.\<close>

definition convert_entry ::
    "window \<Rightarrow> FileSystemDirectoryHandle \<Rightarrow> DirectionConfig \<Rightarrow> ImageEntry \<Rightarrow> unit io" where
  "convert_entry w dir config candidate =
     try_catch
       (bind_io (convert_steps w dir config candidate) (\<lambda>done.
          appendLog (success_line candidate done)))
       (\<lambda>error. appendLog (failure_line candidate error))"

definition handleConversion :: "window \<Rightarrow> ConversionDirection \<Rightarrow> unit io" where
  "handleConversion w direction s =
     (case directoryHandle s of
        None \<Rightarrow> (Inr (), s)
      | Some dir \<Rightarrow>
          (let config = DIRECTION_CONFIG direction;
               targets = filter (\<lambda>file. hasExtension (name file) (sourceExt config)) (images s)
           in if targets = [] then setStatus NoTargets s
              else
                bind_io (ensurePermission dir ReadWrite) (\<lambda>granted.
                  if \<not> granted then setStatus NeedWritePermission
                  else
                    bind_io (setIsConverting True) (\<lambda>u.
                    bind_io (setStatus (Running direction (length targets))) (\<lambda>u.
                    bind_io (for_of targets (convert_entry w dir config)) (\<lambda>u.
                    bind_io (setStatus Completed) (\<lambda>u.
                    bind_io (setIsConverting False) (\<lambda>u.
                    refreshDirectory w None)))))) s))"

subsection \<open>The outcomes of a batch\<close>

text \<open>
  The outcome of the sub-steps of each entry of a batch, in the order of the batch: each
  entry runs in the state the loop body left on the entries before it.
\<close>

primrec batch_results ::
    "window \<Rightarrow> FileSystemDirectoryHandle \<Rightarrow> DirectionConfig \<Rightarrow> ImageEntry list \<Rightarrow> state
      \<Rightarrow> (thrown + string \<times> Blob) list" where
  "batch_results w dir config [] s = []"
| "batch_results w dir config (candidate # rest) s =
     fst (convert_steps w dir config candidate s)
       # batch_results w dir config rest (snd (convert_entry w dir config candidate s))"

subsection \<open>A browser for the examples\<close>

text \<open>
  The examples run the functions above on this browser. Its directory holds three PNG
  files, the second of them too short to be an image, a WebP file, a text file and a
  subdirectory, and lists also what has been written to it. Read access is granted;
  write access is asked for once. \<open>legacy_dir\<close> is the directory in an older browser
  without \<^verbatim>\<open>requestPermission\<close>, \<open>denied_dir\<close> the directory with write access denied.
  The decoder rejects a file of fewer than 8 bytes, bitmaps are 10 by 10 (65536 by 1 in
  \<open>wide_window\<close>), and a canvas with a side above 65535 pixels gives no data, whatever
  the type. In \<open>draw_fails_window\<close> \<^verbatim>\<open>drawImage\<close> throws.
  \<open>code_unit_compare\<close> orders names by their characters.
\<close>

fun lex_compare :: "nat list \<Rightarrow> nat list \<Rightarrow> int" where
  "lex_compare [] [] = 0"
| "lex_compare [] (y # ys) = - 1"
| "lex_compare (x # xs) [] = 1"
| "lex_compare (x # xs) (y # ys) =
     (if x < y then - 1 else if y < x then 1 else lex_compare xs ys)"

definition code_unit_compare :: "string \<Rightarrow> string \<Rightarrow> int" where
  "code_unit_compare a b = lex_compare (map of_char a) (map of_char b)"

definition demo_toBlob :: "HTMLCanvasElement \<Rightarrow> string \<Rightarrow> rat option \<Rightarrow> thrown + Blob option" where
  "demo_toBlob canvas mimeType quality =
     (if 65535 < canvas_width canvas \<or> 65535 < canvas_height canvas
      then Inr None
      else Inr (Some \<lparr>blob_size = 64, blob_type = mimeType\<rparr>))"

definition demo_window :: window where
  "demo_window =
     \<lparr>createImageBitmap = Some (\<lambda>file.
        if file_size file < 8 then Inl (Error (HostMessage ''The source image could not be decoded.''))
        else Inr \<lparr>bitmap_width = 10, bitmap_height = 10\<rparr>),
      loadImage = (\<lambda>file. None),
      getContext = (\<lambda>canvas. True),
      drawImage = (\<lambda>canvas. Inr ()),
      toBlob = demo_toBlob,
      localeCompare = code_unit_compare\<rparr>"

definition wide_window :: window where
  "wide_window =
     demo_window\<lparr>createImageBitmap := Some (\<lambda>file. Inr \<lparr>bitmap_width = 65536, bitmap_height = 1\<rparr>)\<rparr>"

definition draw_fails_window :: window where
  "draw_fails_window =
     demo_window\<lparr>drawImage := (\<lambda>canvas. Inl (Error (HostMessage ''The image source is not usable.'')))\<rparr>"

definition png_file :: File where
  "png_file = \<lparr>file_size = 120, file_type = ''image/png'', file_lastModified = 1\<rparr>"

definition short_png_file :: File where
  "short_png_file = \<lparr>file_size = 3, file_type = ''image/png'', file_lastModified = 1\<rparr>"

definition webp_file :: File where
  "webp_file = \<lparr>file_size = 90, file_type = ''image/webp'', file_lastModified = 1\<rparr>"

definition text_file :: File where
  "text_file = \<lparr>file_size = 5, file_type = ''text/plain'', file_lastModified = 1\<rparr>"

definition demo_listing :: "(string \<times> FileSystemHandle) list" where
  "demo_listing =
     [(''c.png'', FileKind \<lparr>getFile = Inr png_file\<rparr>),
      (''sub'', DirectoryKind),
      (''a.png'', FileKind \<lparr>getFile = Inr png_file\<rparr>),
      (''notes.txt'', FileKind \<lparr>getFile = Inr text_file\<rparr>),
      (''d.webp'', FileKind \<lparr>getFile = Inr webp_file\<rparr>),
      (''b.png'', FileKind \<lparr>getFile = Inr short_png_file\<rparr>)]"

primrec written_files :: "event list \<Rightarrow> (string \<times> FileSystemHandle) list" where
  "written_files [] = []"
| "written_files (ev # evs) =
     (case ev of
        Write nm blob \<Rightarrow>
          [(nm, FileKind \<lparr>getFile = Inr \<lparr>file_size = blob_size blob, file_type = blob_type blob,
                                          file_lastModified = 2\<rparr>\<rparr>)]
      | _ \<Rightarrow> []) @ written_files evs"

definition s0 :: state where
  "s0 = \<lparr>directoryHandle = None, images = [], status = None, logs = [],
          isScanning = False, isConverting = False, trace = []\<rparr>"

definition ok_stream :: FileSystemWritableFileStream where
  "ok_stream = \<lparr>stream_write = (\<lambda>blob. Inr ()), stream_close = Inr ()\<rparr>"

definition demo_query :: "PermissionMode \<Rightarrow> event list \<Rightarrow> thrown + PermissionState" where
  "demo_query mode tr =
     (case mode of
        Read \<Rightarrow> Inr Granted
      | ReadWrite \<Rightarrow> if RequestPermission ReadWrite \<in> set tr then Inr Granted else Inr Prompt)"

definition demo_dir :: FileSystemDirectoryHandle where
  "demo_dir =
     \<lparr>queryPermission = Some demo_query,
      requestPermission = Some (\<lambda>mode tr. Inr Granted),
      entries = (\<lambda>tr. (demo_listing @ written_files tr, None)),
      getFileHandle = (\<lambda>nm tr. Inr \<lparr>createWritable = Inr ok_stream\<rparr>)\<rparr>"

definition legacy_dir :: FileSystemDirectoryHandle where
  "legacy_dir = demo_dir\<lparr>queryPermission := Some (\<lambda>mode tr. Inr Denied), requestPermission := None\<rparr>"

definition denied_dir :: FileSystemDirectoryHandle where
  "denied_dir = demo_dir\<lparr>queryPermission := Some (\<lambda>mode tr. Inr Denied)\<rparr>"

text \<open>The component after the directory has been picked and scanned.\<close>

definition scanned :: "FileSystemDirectoryHandle \<Rightarrow> state" where
  "scanned dir =
     s0\<lparr>directoryHandle := Some dir,
        images := [entry_of ''a.png'' \<lparr>getFile = Inr png_file\<rparr> png_file,
                   entry_of ''b.png'' \<lparr>getFile = Inr short_png_file\<rparr> short_png_file,
                   entry_of ''c.png'' \<lparr>getFile = Inr png_file\<rparr> png_file,
                   entry_of ''d.webp'' \<lparr>getFile = Inr webp_file\<rparr> webp_file],
        status := Some (Loaded 4),
        trace := [QueryPermission Read, Entries, GetFile ''c.png'', GetFile ''a.png'',
                  GetFile ''notes.txt'', GetFile ''d.webp'', GetFile ''b.png'']\<rparr>"

section \<open>Properties\<close>

subsection \<open>The log\<close>

lemma take_append_take: "n \<le> m \<Longrightarrow> take n (xs @ take m ys) = take n (xs @ ys)"
  by (auto simp add: min_def)

lemma appendLog_result: "appendLog entry s = (Inr (), s\<lparr>logs := take 20 (entry # logs s)\<rparr>)"
  by (simp add: appendLog_def)

lemma appendLog_logs: "logs (snd (appendLog entry s)) = take 20 (entry # logs s)"
  by (simp add: appendLog_def)

lemma for_of_appendLog:
  "length (logs s) \<le> 20 \<Longrightarrow> logs (snd (for_of es appendLog s)) = take 20 (rev es @ logs s)"
proof (induction es arbitrary: s)
  case Nil
  then show ?case by simp
next
  case (Cons e es)
  obtain s1 where s1: "appendLog e s = (Inr (), s1)" by (simp add: appendLog_def)
  then have l1: "logs s1 = take 20 (e # logs s)" using appendLog_logs[of e s] by simp
  then have "length (logs s1) \<le> 20" by (simp del: take_Cons_numeral)
  then have "logs (snd (for_of es appendLog s1)) = take 20 (rev es @ logs s1)" by (rule Cons.IH)
  also have "\<dots> = take 20 (rev es @ [e] @ logs s)"
    unfolding l1 using take_append_take[of 20 20 "rev es" "e # logs s"] by simp
  finally show ?case using s1 by simp
qed

text \<open>
  C9. An append never fails, puts the new line first, keeps the 19 newest lines of the
  log behind it and so leaves at most 20 lines; after any sequence of appends the log
  is the 20 newest lines, the newest first.
\<close>

theorem appendLog_newest_first_bounded:
  "fst (appendLog entry s) = Inr ()
   \<and> logs (snd (appendLog entry s)) = entry # take 19 (logs s)
   \<and> length (logs (snd (appendLog entry s))) \<le> 20
   \<and> logs (snd (for_of (e # es) appendLog s)) = take 20 (rev (e # es) @ logs s)"
proof -
  obtain s1 where s1: "appendLog e s = (Inr (), s1)" by (simp add: appendLog_def)
  then have l1: "logs s1 = take 20 (e # logs s)" using appendLog_logs[of e s] by simp
  then have "length (logs s1) \<le> 20" by (simp del: take_Cons_numeral)
  then have "logs (snd (for_of es appendLog s1)) = take 20 (rev es @ logs s1)"
    by (rule for_of_appendLog)
  also have "\<dots> = take 20 (rev es @ [e] @ logs s)"
    unfolding l1 using take_append_take[of 20 20 "rev es" "e # logs s"] by simp
  finally have "logs (snd (for_of (e # es) appendLog s)) = take 20 (rev (e # es) @ logs s)"
    using s1 by simp
  then show ?thesis by (simp add: appendLog_def)
qed

subsection \<open>File names\<close>

lemma lastIndexOf_bounds: "- 1 \<le> lastIndexOf xs c \<and> lastIndexOf xs c < int (length xs)"
  by (induction xs) (auto simp: Let_def)

lemma lastIndexOf_none: "lastIndexOf xs c = - 1 \<longleftrightarrow> c \<notin> set xs"
proof (induction xs)
  case Nil
  show ?case by simp
next
  case (Cons x xs)
  have "- 1 \<le> lastIndexOf xs c" using lastIndexOf_bounds by blast
  with Cons show ?case by (auto simp: Let_def)
qed

lemma lastIndexOf_append:
  "c \<notin> set ext \<Longrightarrow> lastIndexOf (stem @ c # ext) c = int (length stem)"
  by (induction stem) (auto simp: Let_def lastIndexOf_none)

lemma replaceExtension_split:
  "CHR ''.'' \<notin> set ext \<Longrightarrow> replaceExtension (stem @ CHR ''.'' # ext) nextExtension = stem @ nextExtension"
  by (simp add: replaceExtension_def lastIndexOf_append Let_def)

lemma replaceExtension_nodot:
  "CHR ''.'' \<notin> set fileName \<Longrightarrow> replaceExtension fileName nextExtension = fileName @ nextExtension"
  by (simp add: replaceExtension_def lastIndexOf_none Let_def)

lemma toLowerCase_char_dot: "toLowerCase_char c = CHR ''.'' \<longleftrightarrow> c = CHR ''.''"
proof (cases "65 \<le> (of_char c :: nat) \<and> (of_char c :: nat) \<le> 90")
  case True
  have "(of_char (char_of (of_char c + 32 :: nat)) :: nat) = (of_char c + 32) mod 256"
    by (simp only: of_char_of)
  with True have up: "(of_char (char_of (of_char c + 32 :: nat)) :: nat) = of_char c + 32"
    by simp
  have "char_of (of_char c + 32 :: nat) \<noteq> CHR ''.''"
  proof
    assume "char_of (of_char c + 32 :: nat) = CHR ''.''"
    then have "(of_char (char_of (of_char c + 32 :: nat)) :: nat) = of_char (CHR ''.'')"
      by simp
    with up True show False by simp
  qed
  moreover from True have "c \<noteq> CHR ''.''" by auto
  ultimately show ?thesis using True by (simp add: toLowerCase_char_def Let_def)
next
  case False
  then show ?thesis by (auto simp add: toLowerCase_char_def Let_def)
qed

text \<open>
  A name that has the extension \<open>.rest\<close>, in any case, loses exactly its last
  \<open>1 + length rest\<close> characters.
\<close>

lemma replaceExtension_hasExtension:
  assumes "hasExtension nm (CHR ''.'' # rest)" and "CHR ''.'' \<notin> set rest"
  shows "replaceExtension nm nextExtension = take (length nm - Suc (length rest)) nm @ nextExtension"
proof -
  let ?k = "length nm - Suc (length rest)"
  from assms(1) have low: "drop ?k (toLowerCase nm) = CHR ''.'' # rest"
    by (simp_all add: hasExtension_def endsWith_def toLowerCase_def)
  then have "map toLowerCase_char (drop ?k nm) = CHR ''.'' # rest"
    by (simp add: toLowerCase_def drop_map)
  then obtain d tl where dt: "drop ?k nm = d # tl" "toLowerCase_char d = CHR ''.''"
      "map toLowerCase_char tl = rest"
    by (cases "drop ?k nm") auto
  from dt(2) have d: "d = CHR ''.''" by (simp add: toLowerCase_char_dot)
  have "CHR ''.'' \<notin> set tl"
  proof
    assume "CHR ''.'' \<in> set tl"
    then have "toLowerCase_char (CHR ''.'') \<in> set (map toLowerCase_char tl)"
      by (metis image_eqI list.set_map)
    then show False using assms(2) dt(3) by (simp add: toLowerCase_char_dot[THEN iffD2])
  qed
  moreover have "nm = take ?k nm @ CHR ''.'' # tl"
    using dt(1) d by (metis append_take_drop_id)
  ultimately show ?thesis
    using replaceExtension_split[of tl "take ?k nm" nextExtension] by simp
qed

text \<open>
  C5. The suffix of a name is what follows its last dot, the dot included:
  \<open>replaceExtension\<close> puts the target suffix in its place, and appends the target
  suffix to a name without a dot. On a name that has the source suffix of a direction
  (in any case) it replaces exactly that suffix by the target suffix. The two names of
  the specification come out as it says.
\<close>

theorem replaceExtension_replaces_suffix:
  "(CHR ''.'' \<notin> set ext \<longrightarrow>
      replaceExtension (stem @ CHR ''.'' # ext) nextExtension = stem @ nextExtension)
   \<and> (CHR ''.'' \<notin> set fileName \<longrightarrow>
      replaceExtension fileName nextExtension = fileName @ nextExtension)
   \<and> (hasExtension nm (sourceExt (DIRECTION_CONFIG direction)) \<longrightarrow>
      replaceExtension nm (targetExt (DIRECTION_CONFIG direction)) =
        take (length nm - length (sourceExt (DIRECTION_CONFIG direction))) nm
          @ targetExt (DIRECTION_CONFIG direction))
   \<and> replaceExtension ''photo.png'' ''.webp'' = ''photo.webp''
   \<and> replaceExtension ''noext'' ''.webp'' = ''noext.webp''"
proof -
  have "hasExtension nm (sourceExt (DIRECTION_CONFIG direction)) \<longrightarrow>
      replaceExtension nm (targetExt (DIRECTION_CONFIG direction)) =
        take (length nm - length (sourceExt (DIRECTION_CONFIG direction))) nm
          @ targetExt (DIRECTION_CONFIG direction)"
  proof (cases direction)
    case PngToWebp
    show ?thesis
      using replaceExtension_hasExtension[of nm "''png''" "''.webp''"] by (simp add: PngToWebp)
  next
    case WebpToPng
    show ?thesis
      using replaceExtension_hasExtension[of nm "''webp''" "''.png''"] by (simp add: WebpToPng)
  qed
  moreover have "replaceExtension ''photo.png'' ''.webp'' = ''photo.webp''"
    by (simp add: replaceExtension_def)
  moreover have "replaceExtension ''noext'' ''.webp'' = ''noext.webp''"
    by (simp add: replaceExtension_def)
  ultimately show ?thesis
    using replaceExtension_split[of ext stem nextExtension]
      replaceExtension_nodot[of fileName nextExtension]
    by blast
qed

lemma hasExtension_Photo_PNG: "hasExtension ''Photo.PNG'' ''.png''"
  by code_simp

theorem replaceExtension_replaces_suffix_witness:
  "CHR ''.'' \<notin> set ''png''
   \<and> replaceExtension (''archive.tar'' @ CHR ''.'' # ''png'') ''.webp'' = ''archive.tar.webp''
   \<and> CHR ''.'' \<notin> set ''noext''
   \<and> replaceExtension ''noext'' ''.webp'' = ''noext.webp''
   \<and> hasExtension ''Photo.PNG'' (sourceExt (DIRECTION_CONFIG PngToWebp))
   \<and> replaceExtension ''Photo.PNG'' (targetExt (DIRECTION_CONFIG PngToWebp)) = ''Photo.webp''"
  using replaceExtension_replaces_suffix[of "''png''" "''archive.tar''" "''.webp''" "''noext''"
      "''Photo.PNG''" PngToWebp] hasExtension_Photo_PNG
  by simp

subsection \<open>Permission\<close>

text \<open>What \<open>ensurePermission\<close> does on a handle that has both methods.\<close>

lemma ensurePermission_both:
  assumes "queryPermission h = Some query" and "requestPermission h = Some request"
  shows "ensurePermission h mode s =
     (case query mode (trace s) of
        Inl e \<Rightarrow> (Inl e, s\<lparr>trace := trace s @ [QueryPermission mode]\<rparr>)
      | Inr Granted \<Rightarrow> (Inr True, s\<lparr>trace := trace s @ [QueryPermission mode]\<rparr>)
      | Inr Denied \<Rightarrow> (Inr False, s\<lparr>trace := trace s @ [QueryPermission mode]\<rparr>)
      | Inr Prompt \<Rightarrow>
          (case request mode (trace s @ [QueryPermission mode]) of
             Inl e \<Rightarrow>
               (Inl e, s\<lparr>trace := trace s @ [QueryPermission mode, RequestPermission mode]\<rparr>)
           | Inr result \<Rightarrow>
               (Inr (result = Granted),
                s\<lparr>trace := trace s @ [QueryPermission mode, RequestPermission mode]\<rparr>)))"
  using assms
  by (simp add: ensurePermission_def bind_io_def host_call_dir_def host_call_def ret_io_def
      split: sum.splits PermissionState.splits)

lemma ensurePermission_missing:
  "queryPermission h = None \<or> requestPermission h = None \<Longrightarrow>
     ensurePermission h mode s = (Inr True, s)"
  by (auto simp add: ensurePermission_def ret_io_def split: option.splits)

text \<open>
  C3, as the specification states it, asks for false whenever the permission state of
  the handle is denied. The guard of lines 387 to 392 decides otherwise for a handle that
  has \<^verbatim>\<open>queryPermission\<close> but no \<^verbatim>\<open>requestPermission\<close>: the query of \<open>legacy_dir\<close>
  answers denied for \<open>ReadWrite\<close>, and \<open>ensurePermission\<close> gives true without asking it.
\<close>

theorem ensurePermission_denied_without_request_counterexample:
  "queryPermission legacy_dir \<noteq> None
   \<and> the (queryPermission legacy_dir) ReadWrite (trace s0) = Inr Denied
   \<and> ensurePermission legacy_dir ReadWrite s0 = (Inr True, s0)
   \<and> fst (ensurePermission legacy_dir ReadWrite s0) \<noteq> Inr False"
  by (simp add: ensurePermission_def legacy_dir_def demo_dir_def ret_io_def)

text \<open>
  C3, amended. On a handle that has both permission methods: when the query answers
  granted, the result is true and the query is the only call; when it answers denied,
  the result is false and the query is the only call; when it answers prompt, exactly
  one request follows the query, and the result is true exactly when the request
  answers granted (false when it answers anything else).
\<close>

theorem ensurePermission_query_then_request:
  assumes "queryPermission h = Some query" and "requestPermission h = Some request"
  shows "(query mode (trace s) = Inr Granted \<longrightarrow>
            ensurePermission h mode s =
              (Inr True, s\<lparr>trace := trace s @ [QueryPermission mode]\<rparr>))
       \<and> (query mode (trace s) = Inr Denied \<longrightarrow>
            ensurePermission h mode s =
              (Inr False, s\<lparr>trace := trace s @ [QueryPermission mode]\<rparr>))
       \<and> (query mode (trace s) = Inr Prompt \<longrightarrow>
            snd (ensurePermission h mode s) =
              s\<lparr>trace := trace s @ [QueryPermission mode, RequestPermission mode]\<rparr>
            \<and> (fst (ensurePermission h mode s) = Inr True
                 \<longleftrightarrow> request mode (trace s @ [QueryPermission mode]) = Inr Granted)
            \<and> (fst (ensurePermission h mode s) = Inr False
                 \<longleftrightarrow> (\<exists>r. request mode (trace s @ [QueryPermission mode]) = Inr r
                        \<and> r \<noteq> Granted)))"
  using ensurePermission_both[OF assms, of mode s]
  by (auto split: sum.splits)

theorem ensurePermission_query_then_request_witness:
  "ensurePermission demo_dir Read s0 = (Inr True, s0\<lparr>trace := [QueryPermission Read]\<rparr>)
   \<and> ensurePermission denied_dir ReadWrite s0
       = (Inr False, s0\<lparr>trace := [QueryPermission ReadWrite]\<rparr>)
   \<and> ensurePermission demo_dir ReadWrite s0
       = (Inr True, s0\<lparr>trace := [QueryPermission ReadWrite, RequestPermission ReadWrite]\<rparr>)"
proof -
  have q: "queryPermission demo_dir = Some demo_query"
    and r: "requestPermission demo_dir = Some (\<lambda>mode tr. Inr Granted)"
    and qd: "queryPermission denied_dir = Some (\<lambda>mode tr. Inr Denied)"
    and rd: "requestPermission denied_dir = Some (\<lambda>mode tr. Inr Granted)"
    by (simp_all add: demo_dir_def denied_dir_def)
  have t: "trace s0 = []" by (simp add: s0_def)
  show ?thesis
    using ensurePermission_query_then_request[OF q r, of Read s0]
      ensurePermission_query_then_request[OF qd rd, of ReadWrite s0]
      ensurePermission_query_then_request[OF q r, of ReadWrite s0]
    by (simp add: t demo_query_def prod_eq_iff)
qed

text \<open>
  C10. On a handle without \<^verbatim>\<open>requestPermission\<close> the result is true and no call is
  made, whatever the mode and whatever \<^verbatim>\<open>queryPermission\<close> would answer; and the
  result is true with no call made exactly when one of the two methods is missing.
\<close>

theorem ensurePermission_implicit_grant:
  "(requestPermission h = None \<longrightarrow> ensurePermission h mode s = (Inr True, s))
   \<and> (ensurePermission h mode s = (Inr True, s)
        \<longleftrightarrow> queryPermission h = None \<or> requestPermission h = None)"
proof -
  have "ensurePermission h mode s \<noteq> (Inr True, s)"
    if "queryPermission h = Some query" "requestPermission h = Some request" for query request
  proof
    assume a: "ensurePermission h mode s = (Inr True, s)"
    have "trace (snd (ensurePermission h mode s)) \<noteq> trace s"
      using ensurePermission_both[OF that, of mode s]
      by (auto split: sum.splits PermissionState.splits)
    with a show False by simp
  qed
  then show ?thesis
    using ensurePermission_missing[of h mode s]
    by (cases "queryPermission h"; cases "requestPermission h") auto
qed

theorem ensurePermission_implicit_grant_witness:
  "requestPermission legacy_dir = None
   \<and> queryPermission legacy_dir \<noteq> None
   \<and> the (queryPermission legacy_dir) ReadWrite (trace s0) = Inr Denied
   \<and> ensurePermission legacy_dir Read s0 = (Inr True, s0)
   \<and> ensurePermission legacy_dir ReadWrite s0 = (Inr True, s0)
   \<and> ensurePermission demo_dir Read s0 \<noteq> (Inr True, s0)"
  using ensurePermission_implicit_grant[of legacy_dir Read s0]
    ensurePermission_implicit_grant[of legacy_dir ReadWrite s0]
    ensurePermission_implicit_grant[of demo_dir Read s0]
  by (simp add: legacy_dir_def demo_dir_def)

subsection \<open>Encoding and conversion of one file\<close>

lemma canvasToBlob_result:
  "canvasToBlob w canvas mimeType s =
     (case toBlob w canvas mimeType (if mimeType = ''image/webp'' then Some (92 / 100) else None) of
        Inl e \<Rightarrow> Inl e
      | Inr None \<Rightarrow> Inl (Error BlobFailed)
      | Inr (Some b) \<Rightarrow> Inr b,
      s\<lparr>trace := trace s @ [ToBlob mimeType (if mimeType = ''image/webp'' then Some (92 / 100) else None)]\<rparr>)"
  by (simp add: canvasToBlob_def bind_io_def host_call_def ret_io_def throw_io_def Let_def
      split: sum.splits option.splits)

text \<open>
  C8. Every call of \<open>canvasToBlob\<close> makes one \<^verbatim>\<open>toBlob\<close> call: with the quality 0.92
  for \<^verbatim>\<open>image/webp\<close>, with no quality for \<^verbatim>\<open>image/png\<close> (and for any other type).
  When the callback receives no blob, the result is the error of line 461; a blob is
  returned only when the callback received that blob.
\<close>

theorem canvasToBlob_quality_and_failure:
  "snd (canvasToBlob w canvas ''image/webp'' s)
      = s\<lparr>trace := trace s @ [ToBlob ''image/webp'' (Some (92 / 100))]\<rparr>
   \<and> snd (canvasToBlob w canvas ''image/png'' s)
      = s\<lparr>trace := trace s @ [ToBlob ''image/png'' None]\<rparr>
   \<and> snd (canvasToBlob w canvas mimeType s)
      = s\<lparr>trace := trace s @
           [ToBlob mimeType (if mimeType = ''image/webp'' then Some (92 / 100) else None)]\<rparr>
   \<and> (toBlob w canvas mimeType (if mimeType = ''image/webp'' then Some (92 / 100) else None)
         = Inr None \<longrightarrow>
       fst (canvasToBlob w canvas mimeType s) = Inl (Error BlobFailed))
   \<and> (\<forall>b. fst (canvasToBlob w canvas mimeType s) = Inr b \<longleftrightarrow>
         toBlob w canvas mimeType (if mimeType = ''image/webp'' then Some (92 / 100) else None)
           = Inr (Some b))"
  by (auto simp add: canvasToBlob_result split: sum.splits option.splits)

theorem canvasToBlob_quality_and_failure_witness:
  "toBlob demo_window \<lparr>canvas_width = 65536, canvas_height = 1\<rparr> ''image/webp'' (Some (92 / 100)) = Inr None
   \<and> canvasToBlob demo_window \<lparr>canvas_width = 65536, canvas_height = 1\<rparr> ''image/webp'' s0
       = (Inl (Error BlobFailed), s0\<lparr>trace := [ToBlob ''image/webp'' (Some (92 / 100))]\<rparr>)
   \<and> canvasToBlob demo_window \<lparr>canvas_width = 10, canvas_height = 10\<rparr> ''image/png'' s0
       = (Inr \<lparr>blob_size = 64, blob_type = ''image/png''\<rparr>, s0\<lparr>trace := [ToBlob ''image/png'' None]\<rparr>)"
proof -
  have t: "trace s0 = []" by (simp add: s0_def)
  have n: "toBlob demo_window \<lparr>canvas_width = 65536, canvas_height = 1\<rparr> ''image/webp'' (Some (92 / 100)) = Inr None"
    by (simp add: demo_window_def demo_toBlob_def)
  have p: "toBlob demo_window \<lparr>canvas_width = 10, canvas_height = 10\<rparr> ''image/png'' None = Inr (Some \<lparr>blob_size = 64, blob_type = ''image/png''\<rparr>)"
    by (simp add: demo_window_def demo_toBlob_def)
  show ?thesis
    using canvasToBlob_quality_and_failure[of demo_window "\<lparr>canvas_width = 65536, canvas_height = 1\<rparr>" s0 "''image/webp''"]
      canvasToBlob_quality_and_failure[of demo_window "\<lparr>canvas_width = 10, canvas_height = 10\<rparr>" s0 "''image/png''"]
      n p
    by (simp add: t prod_eq_iff)
qed

text \<open>
  Once the source is there and a 2d context is obtained, a throwing \<^verbatim>\<open>drawImage\<close> or
  a failing \<open>canvasToBlob\<close> ends \<open>convertWithCanvas\<close> at once: the trace stops at that
  call, with no \<^verbatim>\<open>close\<close> of the bitmap. This holds in every browser.
\<close>

lemma convertWithCanvas_draw_throws:
  assumes "createImageBitmap w = Some decode" and "decode file = Inr bitmap"
    and "getContext w \<lparr>canvas_width = bitmap_width bitmap, canvas_height = bitmap_height bitmap\<rparr>"
    and "drawImage w \<lparr>canvas_width = bitmap_width bitmap, canvas_height = bitmap_height bitmap\<rparr>
           = Inl e"
  shows "convertWithCanvas w file mimeType s =
           (Inl e, s\<lparr>trace := trace s @ [CreateImageBitmap, GetContext, DrawImage]\<rparr>)"
  using assms
  by (simp add: convertWithCanvas_def rasterize_def bind_io_def host_call_def ret_io_def Let_def)

lemma convertWithCanvas_encode_fails:
  assumes "createImageBitmap w = Some decode" and "decode file = Inr bitmap"
    and "getContext w \<lparr>canvas_width = bitmap_width bitmap, canvas_height = bitmap_height bitmap\<rparr>"
    and "drawImage w \<lparr>canvas_width = bitmap_width bitmap, canvas_height = bitmap_height bitmap\<rparr>
           = Inr ()"
    and "toBlob w \<lparr>canvas_width = bitmap_width bitmap, canvas_height = bitmap_height bitmap\<rparr>
           mimeType (if mimeType = ''image/webp'' then Some (92 / 100) else None) = Inr None"
  shows "convertWithCanvas w file mimeType s =
           (Inl (Error BlobFailed),
            s\<lparr>trace := trace s @ [CreateImageBitmap, GetContext, DrawImage,
                   ToBlob mimeType (if mimeType = ''image/webp'' then Some (92 / 100) else None)]\<rparr>)"
  using assms
  by (simp add: convertWithCanvas_def rasterize_def canvasToBlob_result bind_io_def host_call_def
      ret_io_def Let_def)

text \<open>
  C7. A PNG of 65536 by 1 pixels decodes, a context is obtained and the bitmap is drawn,
  but a canvas that wide gives no data: \<open>convertWithCanvas\<close> throws the error of line
  461 and the bitmap is never closed. Likewise when \<^verbatim>\<open>drawImage\<close> throws. The same
  function closes the source once when no 2d context is obtained, and once when the
  conversion succeeds.
\<close>

theorem convertWithCanvas_skips_cleanup_when_encoding_fails:
  "convertWithCanvas wide_window png_file ''image/webp'' s0
     = (Inl (Error BlobFailed),
        s0\<lparr>trace := [CreateImageBitmap, GetContext, DrawImage, ToBlob ''image/webp'' (Some (92 / 100))]\<rparr>)
   \<and> BitmapClose \<notin> set (trace (snd (convertWithCanvas wide_window png_file ''image/webp'' s0)))
   \<and> convertWithCanvas draw_fails_window png_file ''image/webp'' s0
     = (Inl (Error (HostMessage ''The image source is not usable.'')),
        s0\<lparr>trace := [CreateImageBitmap, GetContext, DrawImage]\<rparr>)
   \<and> convertWithCanvas (demo_window\<lparr>getContext := (\<lambda>canvas. False)\<rparr>) png_file ''image/webp'' s0
     = (Inl (Error CanvasContextFailed), s0\<lparr>trace := [CreateImageBitmap, GetContext, BitmapClose]\<rparr>)
   \<and> convertWithCanvas demo_window png_file ''image/webp'' s0
     = (Inr \<lparr>blob_size = 64, blob_type = ''image/webp''\<rparr>,
        s0\<lparr>trace := [CreateImageBitmap, GetContext, DrawImage,
                      ToBlob ''image/webp'' (Some (92 / 100)), BitmapClose]\<rparr>)"
  by (simp add: convertWithCanvas_def rasterize_def canvasToBlob_result wide_window_def
      draw_fails_window_def demo_window_def demo_toBlob_def png_file_def s0_def bind_io_def
      host_call_def ret_io_def throw_io_def Let_def)

subsection \<open>The scan\<close>

lemma set_insert_cmp: "set (insert_cmp cmp x xs) = insert x (set xs)"
  by (induction xs) auto

lemma set_sort_cmp: "set (sort_cmp cmp xs) = set xs"
  by (induction xs) (auto simp: set_insert_cmp)

lemma sorted_insert_cmp:
  assumes total: "\<And>a b. cmp a b \<le> 0 \<or> cmp b a \<le> 0"
    and trans: "\<And>a b c. cmp a b \<le> 0 \<Longrightarrow> cmp b c \<le> 0 \<Longrightarrow> cmp a c \<le> 0"
  shows "sorted_wrt (\<lambda>a b. cmp a b \<le> 0) xs \<Longrightarrow> sorted_wrt (\<lambda>a b. cmp a b \<le> 0) (insert_cmp cmp x xs)"
proof (induction xs)
  case Nil
  show ?case by simp
next
  case (Cons y ys)
  show ?case
  proof (cases "cmp x y \<le> 0")
    case True
    then have "\<forall>z\<in>set ys. cmp x z \<le> 0" using Cons.prems trans by auto
    with True Cons.prems show ?thesis by simp
  next
    case False
    then have "cmp y x \<le> 0" using total[of x y] by simp
    with False Cons show ?thesis by (auto simp: set_insert_cmp)
  qed
qed

lemma sorted_sort_cmp:
  assumes total: "\<And>a b. cmp a b \<le> 0 \<or> cmp b a \<le> 0"
    and trans: "\<And>a b c. cmp a b \<le> 0 \<Longrightarrow> cmp b c \<le> 0 \<Longrightarrow> cmp a c \<le> 0"
  shows "sorted_wrt (\<lambda>a b. cmp a b \<le> 0) (sort_cmp cmp xs)"
  by (induction xs) (simp_all add: sorted_insert_cmp[OF total trans])




lemma collect_loop_set:
  "collect_loop items result s = (Inr r, s') \<Longrightarrow>
     set r = set result \<union> {entry_of nm fh f | nm fh f.
        (nm, FileKind fh) \<in> set items \<and> getFile fh = Inr f \<and> file_type f \<in> SUPPORTED_MIME_TYPES}"
proof (induction items arbitrary: result s)
  case Nil
  then show ?case by simp
next
  case (Cons item rest)
  obtain nm child where item: "item = (nm, child)" by (cases item)
  show ?case
  proof (cases child)
    case DirectoryKind
    with Cons.prems item have "collect_loop rest result s = (Inr r, s')" by simp
    from Cons.IH[OF this] DirectoryKind item show ?thesis by auto
  next
    case (FileKind fh)
    show ?thesis
    proof (cases "getFile fh")
      case (Inl e)
      with FileKind item Cons.prems show ?thesis by (simp add: host_call_def)
    next
      case (Inr f)
      let ?s1 = "s\<lparr>trace := trace s @ [GetFile nm]\<rparr>"
      show ?thesis
      proof (cases "file_type f \<in> SUPPORTED_MIME_TYPES")
        case True
        with Inr FileKind item Cons.prems
        have "collect_loop rest (result @ [entry_of nm fh f]) ?s1 = (Inr r, s')"
          by (simp add: host_call_def)
        from Cons.IH[OF this] True Inr FileKind item show ?thesis by auto
      next
        case False
        with Inr FileKind item Cons.prems
        have "collect_loop rest result ?s1 = (Inr r, s')" by (simp add: host_call_def)
        from Cons.IH[OF this] False Inr FileKind item show ?thesis by auto
      qed
    qed
  qed
qed




lemma collect_loop_total:
  "\<forall>nm fh. (nm, FileKind fh) \<in> set items \<longrightarrow> (\<exists>f. getFile fh = Inr f) \<Longrightarrow>
    \<exists>r s'. collect_loop items result s = (Inr r, s')"
proof (induction items arbitrary: result s)
  case Nil
  then show ?case by simp
next
  case (Cons item rest)
  then have IH: "\<And>result s. \<exists>r s'. collect_loop rest result s = (Inr r, s')" by simp
  obtain nm child where item: "item = (nm, child)" by (cases item)
  show ?case
  proof (cases child)
    case DirectoryKind
    then show ?thesis using IH item by simp
  next
    case (FileKind fh)
    then obtain f where "getFile fh = Inr f" using Cons.prems item by auto
    with FileKind item show ?thesis using IH by (simp add: host_call_def)
  qed
qed

lemma collect_loop_state:
  "\<exists>evs. snd (collect_loop items result s) = s\<lparr>trace := trace s @ evs\<rparr>
      \<and> set evs \<subseteq> {GetFile nm | nm fh. (nm, FileKind fh) \<in> set items}"
proof (induction items arbitrary: result s)
  case Nil
  show ?case by simp
next
  case (Cons item rest)
  obtain nm child where item: "item = (nm, child)" by (cases item)
  show ?case
  proof (cases child)
    case DirectoryKind
    obtain evs where "snd (collect_loop rest result s) = s\<lparr>trace := trace s @ evs\<rparr>"
      "set evs \<subseteq> {GetFile nm | nm fh. (nm, FileKind fh) \<in> set rest}" using Cons.IH by blast
    with DirectoryKind item show ?thesis by auto
  next
    case (FileKind fh)
    let ?s1 = "s\<lparr>trace := trace s @ [GetFile nm]\<rparr>"
    show ?thesis
    proof (cases "getFile fh")
      case (Inl e)
      with FileKind item have "snd (collect_loop (item # rest) result s) = s\<lparr>trace := trace s @ [GetFile nm]\<rparr>"
        by (simp add: host_call_def)
      moreover have "set [GetFile nm] \<subseteq> {GetFile nm | nm fh. (nm, FileKind fh) \<in> set (item # rest)}"
        using FileKind item by auto
      ultimately show ?thesis by blast
    next
      case (Inr f)
      define result' where "result' = (if file_type f \<notin> SUPPORTED_MIME_TYPES then result else result @ [entry_of nm fh f])"
      have step: "collect_loop (item # rest) result s = collect_loop rest result' ?s1"
        using Inr FileKind item by (simp add: host_call_def result'_def)
      obtain evs where evs: "snd (collect_loop rest result' ?s1) = ?s1\<lparr>trace := trace ?s1 @ evs\<rparr>"
        "set evs \<subseteq> {GetFile nm | nm fh. (nm, FileKind fh) \<in> set rest}" using Cons.IH by blast
      have "snd (collect_loop (item # rest) result s) = s\<lparr>trace := trace s @ (GetFile nm # evs)\<rparr>"
        using step evs(1) by simp
      moreover have "set (GetFile nm # evs) \<subseteq> {GetFile nm | nm fh. (nm, FileKind fh) \<in> set (item # rest)}"
        using evs(2) FileKind item by auto
      ultimately show ?thesis by blast
    qed
  qed
qed


lemma collectImageEntries_unfold:
  "collectImageEntries w dir s =
     (case collect_loop (fst (entries dir (trace s))) [] (s\<lparr>trace := trace s @ [Entries]\<rparr>) of
        (Inl e, s2) \<Rightarrow> (Inl e, s2)
      | (Inr r0, s2) \<Rightarrow>
          (case snd (entries dir (trace s)) of
             Some e \<Rightarrow> (Inl e, s2)
           | None \<Rightarrow> (Inr (sort_cmp (\<lambda>a b. localeCompare w (name a) (name b)) r0), s2)))"
proof -
  obtain r s2 where c: "collect_loop (fst (entries dir (trace s))) [] (s\<lparr>trace := trace s @ [Entries]\<rparr>) = (r, s2)"
    by (cases "collect_loop (fst (entries dir (trace s))) [] (s\<lparr>trace := trace s @ [Entries]\<rparr>)")
  show ?thesis
    by (cases r; cases "snd (entries dir (trace s))")
      (simp_all add: collectImageEntries_def bind_io_def host_call_dir_def host_call_def ret_io_def throw_io_def c)
qed

lemma collectImageEntries_Inr:
  assumes "collectImageEntries w dir s = (Inr r, s')"
  shows "\<exists>r0. collect_loop (fst (entries dir (trace s))) [] (s\<lparr>trace := trace s @ [Entries]\<rparr>) = (Inr r0, s')
      \<and> snd (entries dir (trace s)) = None
      \<and> r = sort_cmp (\<lambda>a b. localeCompare w (name a) (name b)) r0"
proof -
  obtain x s2 where c: "collect_loop (fst (entries dir (trace s))) [] (s\<lparr>trace := trace s @ [Entries]\<rparr>) = (x, s2)"
    by (cases "collect_loop (fst (entries dir (trace s))) [] (s\<lparr>trace := trace s @ [Entries]\<rparr>)")
  show ?thesis using assms unfolding collectImageEntries_unfold c
    by (cases x; cases "snd (entries dir (trace s))") simp_all
qed

lemma collectImageEntries_total:
  assumes "snd (entries dir (trace s)) = None"
    and "\<forall>nm fh. (nm, FileKind fh) \<in> set (fst (entries dir (trace s))) \<longrightarrow> (\<exists>f. getFile fh = Inr f)"
  shows "\<exists>r s'. collectImageEntries w dir s = (Inr r, s')"
proof -
  obtain r0 s1 where "collect_loop (fst (entries dir (trace s))) [] (s\<lparr>trace := trace s @ [Entries]\<rparr>) = (Inr r0, s1)"
    using collect_loop_total[OF assms(2)] by blast
  then show ?thesis using assms(1)
    by (simp add: collectImageEntries_unfold)
qed


lemma lex_compare_total: "lex_compare a b \<le> 0 \<or> lex_compare b a \<le> 0"
  by (induction a b rule: lex_compare.induct) auto

lemma lex_compare_trans:
  "lex_compare a b \<le> 0 \<Longrightarrow> lex_compare b c \<le> 0 \<Longrightarrow> lex_compare a c \<le> 0"
proof (induction a b arbitrary: c rule: lex_compare.induct)
  case 1
  then show ?case by simp
next
  case (2 y ys)
  then show ?case by (cases c) auto
next
  case (3 x xs)
  then show ?case by simp
next
  case (4 x xs y ys)
  show ?case
  proof (cases c)
    case Nil
    with 4 show ?thesis by simp
  next
    case (Cons z zs)
    from "4.prems"(1) have xy: "x \<le> y" by (simp split: if_splits)
    from "4.prems"(2) Cons have yz: "y \<le> z" by (simp split: if_splits)
    show ?thesis
    proof (cases "x < z")
      case True
      then show ?thesis using Cons by simp
    next
      case False
      with xy yz have e: "x = y" "y = z" by auto
      with "4.prems" Cons have "lex_compare xs ys \<le> 0" "lex_compare ys zs \<le> 0" by simp_all
      then have "lex_compare xs zs \<le> 0" using "4.IH" e by simp
      then show ?thesis using e Cons by simp
    qed
  qed
qed

text \<open>
  C4. \<^verbatim>\<open>localeCompare\<close> is a consistent comparator, as ECMAScript requires: total and
  transitive. Then a scan of a directory whose iteration does not reject and whose file
  children can all be read succeeds, whatever subdirectories it holds; and the result of
  a successful scan is sorted by name in the order of \<^verbatim>\<open>localeCompare\<close>, holds only
  entries of type \<^verbatim>\<open>image/png\<close> or \<^verbatim>\<open>image/webp\<close>, each the entry of a file
  child (all such children are there), and the scan has called \<^verbatim>\<open>getFile\<close> on file
  children only.
\<close>

theorem collectImageEntries_sorted_supported_files:
  assumes total: "\<forall>a b. localeCompare w a b \<le> 0 \<or> localeCompare w b a \<le> 0"
    and trans: "\<forall>a b c. localeCompare w a b \<le> 0 \<and> localeCompare w b c \<le> 0
                  \<longrightarrow> localeCompare w a c \<le> 0"
  shows "(snd (entries dir (trace s)) = None
          \<and> (\<forall>nm fh. (nm, FileKind fh) \<in> set (fst (entries dir (trace s)))
                \<longrightarrow> (\<exists>f. getFile fh = Inr f))
         \<longrightarrow> (\<exists>result s'. collectImageEntries w dir s = (Inr result, s')))
    \<and> (\<forall>result s'. collectImageEntries w dir s = (Inr result, s') \<longrightarrow>
          sorted_wrt (\<lambda>a b. localeCompare w (name a) (name b) \<le> 0) result
        \<and> (\<forall>e\<in>set result. entry_type e \<in> {''image/png'', ''image/webp''})
        \<and> (\<forall>e\<in>set result. \<exists>fh. (name e, FileKind fh) \<in> set (fst (entries dir (trace s))))
        \<and> set result = {entry_of nm fh f | nm fh f.
             (nm, FileKind fh) \<in> set (fst (entries dir (trace s))) \<and> getFile fh = Inr f
             \<and> file_type f \<in> SUPPORTED_MIME_TYPES}
        \<and> (\<exists>evs. s' = s\<lparr>trace := trace s @ Entries # evs\<rparr>
              \<and> set evs \<subseteq> {GetFile nm | nm fh.
                    (nm, FileKind fh) \<in> set (fst (entries dir (trace s)))}))"
proof (intro conjI allI impI)
  assume "snd (entries dir (trace s)) = None
          \<and> (\<forall>nm fh. (nm, FileKind fh) \<in> set (fst (entries dir (trace s)))
                \<longrightarrow> (\<exists>f. getFile fh = Inr f))"
  then show "\<exists>result s'. collectImageEntries w dir s = (Inr result, s')"
    using collectImageEntries_total[of dir s w] by blast
next
  fix result s'
  assume scan: "collectImageEntries w dir s = (Inr result, s')"
  let ?cmp = "\<lambda>a b. localeCompare w (name a) (name b)"
  let ?items = "fst (entries dir (trace s))"
  let ?s1 = "s\<lparr>trace := trace s @ [Entries]\<rparr>"
  obtain r0 where loop: "collect_loop ?items [] ?s1 = (Inr r0, s')"
    and r: "result = sort_cmp ?cmp r0"
    using collectImageEntries_Inr[OF scan] by blast
  show "sorted_wrt (\<lambda>a b. ?cmp a b \<le> 0) result"
    unfolding r
  proof (rule sorted_sort_cmp)
    show "?cmp a b \<le> 0 \<or> ?cmp b a \<le> 0" for a b using total by blast
    show "?cmp a b \<le> 0 \<Longrightarrow> ?cmp b c \<le> 0 \<Longrightarrow> ?cmp a c \<le> 0" for a b c
      using trans by blast
  qed
  show set_eq: "set result = {entry_of nm fh f | nm fh f.
         (nm, FileKind fh) \<in> set ?items \<and> getFile fh = Inr f
         \<and> file_type f \<in> SUPPORTED_MIME_TYPES}"
    using collect_loop_set[OF loop] by (simp add: r set_sort_cmp)
  show "\<forall>e\<in>set result. entry_type e \<in> {''image/png'', ''image/webp''}"
    unfolding set_eq by (auto simp: entry_of_def SUPPORTED_MIME_TYPES_def)
  show "\<forall>e\<in>set result. \<exists>fh. (name e, FileKind fh) \<in> set ?items"
    unfolding set_eq by (auto simp: entry_of_def)
  obtain evs where evs: "snd (collect_loop ?items [] ?s1) = ?s1\<lparr>trace := trace ?s1 @ evs\<rparr>"
      "set evs \<subseteq> {GetFile nm | nm fh. (nm, FileKind fh) \<in> set ?items}"
    using collect_loop_state by blast
  from evs(1) loop have "s' = s\<lparr>trace := trace s @ Entries # evs\<rparr>" by simp
  with evs(2) show "\<exists>evs. s' = s\<lparr>trace := trace s @ Entries # evs\<rparr>
          \<and> set evs \<subseteq> {GetFile nm | nm fh. (nm, FileKind fh) \<in> set ?items}" by blast
qed

lemma demo_scan:
  "collectImageEntries demo_window demo_dir s0 =
     (Inr [entry_of ''a.png'' \<lparr>getFile = Inr png_file\<rparr> png_file,
           entry_of ''b.png'' \<lparr>getFile = Inr short_png_file\<rparr> short_png_file,
           entry_of ''c.png'' \<lparr>getFile = Inr png_file\<rparr> png_file,
           entry_of ''d.webp'' \<lparr>getFile = Inr webp_file\<rparr> webp_file],
      s0\<lparr>trace := [Entries, GetFile ''c.png'', GetFile ''a.png'', GetFile ''notes.txt'',
                    GetFile ''d.webp'', GetFile ''b.png'']\<rparr>)"
  by (simp add: collectImageEntries_unfold demo_dir_def demo_listing_def demo_window_def s0_def
      host_call_def SUPPORTED_MIME_TYPES_def png_file_def short_png_file_def webp_file_def
      text_file_def entry_of_def code_unit_compare_def)

theorem collectImageEntries_sorted_supported_files_witness:
  "collectImageEntries demo_window demo_dir s0 =
     (Inr [entry_of ''a.png'' \<lparr>getFile = Inr png_file\<rparr> png_file,
           entry_of ''b.png'' \<lparr>getFile = Inr short_png_file\<rparr> short_png_file,
           entry_of ''c.png'' \<lparr>getFile = Inr png_file\<rparr> png_file,
           entry_of ''d.webp'' \<lparr>getFile = Inr webp_file\<rparr> webp_file],
      s0\<lparr>trace := [Entries, GetFile ''c.png'', GetFile ''a.png'', GetFile ''notes.txt'',
                    GetFile ''d.webp'', GetFile ''b.png'']\<rparr>)
   \<and> (''sub'', DirectoryKind) \<in> set (fst (entries demo_dir (trace s0)))
   \<and> sorted_wrt (\<lambda>a b. localeCompare demo_window (name a) (name b) \<le> 0)
        [entry_of ''a.png'' \<lparr>getFile = Inr png_file\<rparr> png_file,
         entry_of ''b.png'' \<lparr>getFile = Inr short_png_file\<rparr> short_png_file,
         entry_of ''c.png'' \<lparr>getFile = Inr png_file\<rparr> png_file,
         entry_of ''d.webp'' \<lparr>getFile = Inr webp_file\<rparr> webp_file]"
proof -
  have total: "\<forall>a b. localeCompare demo_window a b \<le> 0 \<or> localeCompare demo_window b a \<le> 0"
    by (simp add: demo_window_def code_unit_compare_def lex_compare_total)
  have trans: "\<forall>a b c. localeCompare demo_window a b \<le> 0 \<and> localeCompare demo_window b c \<le> 0
                  \<longrightarrow> localeCompare demo_window a c \<le> 0"
    using lex_compare_trans by (auto simp add: demo_window_def code_unit_compare_def)
  have sub: "(''sub'', DirectoryKind) \<in> set (fst (entries demo_dir (trace s0)))"
    by (simp add: demo_dir_def demo_listing_def)
  from collectImageEntries_sorted_supported_files[OF total trans, of demo_dir s0] demo_scan sub
  show ?thesis by blast
qed

subsection \<open>The batch\<close>

text \<open>The sub-steps of an entry, the permission check and the scan leave the log alone.\<close>

lemma convertWithCanvas_logs: "logs (snd (convertWithCanvas w file mimeType s)) = logs s"
  by (simp add: convertWithCanvas_def rasterize_def canvasToBlob_result bind_io_def host_call_def
      ret_io_def throw_io_def Let_def split: option.splits sum.splits prod.splits)

lemma bind_io_logs:
  assumes "\<And>s. logs (snd (m s)) = logs s" and "\<And>x s. logs (snd (f x s)) = logs s"
  shows "logs (snd (bind_io m f s)) = logs s"
proof (cases "m s")
  case (Pair r s1)
  with assms(1)[of s] have "logs s1 = logs s" by simp
  with Pair assms(2) show ?thesis by (cases r) (simp_all add: bind_io_def)
qed

lemma host_call_logs: "logs (snd (host_call ev r s)) = logs s"
  by (simp add: host_call_def)

lemma host_call_dir_logs: "logs (snd (host_call_dir ev f s)) = logs s"
  by (simp add: host_call_dir_def host_call_def)

lemma convert_steps_logs: "logs (snd (convert_steps w dir config candidate s)) = logs s"
  unfolding convert_steps_def Let_def
  by (intro bind_io_logs host_call_logs host_call_dir_logs convertWithCanvas_logs)
    (simp_all add: setStatus_def ret_io_def)

lemma convert_entry_result:
  "convert_entry w dir config candidate s =
     (Inr (), (snd (convert_steps w dir config candidate s))
        \<lparr>logs := take 20 (case_sum (failure_line candidate) (success_line candidate)
                           (fst (convert_steps w dir config candidate s)) # logs s)\<rparr>)"
proof (cases "convert_steps w dir config candidate s")
  case (Pair r s1)
  with convert_steps_logs[of w dir config candidate s] have "logs s1 = logs s" by simp
  with Pair show ?thesis
    by (cases r) (simp_all add: convert_entry_def try_catch_def bind_io_def appendLog_def)
qed

lemma for_of_convert_entry:
  "fst (for_of targets (convert_entry w dir config) s) = Inr ()
   \<and> (length (logs s) \<le> 20 \<longrightarrow>
      logs (snd (for_of targets (convert_entry w dir config) s)) =
       take 20 (rev (map2 (\<lambda>candidate. case_sum (failure_line candidate) (success_line candidate))
                      targets (batch_results w dir config targets s)) @ logs s))"
proof (induction targets arbitrary: s)
  case Nil
  show ?case by simp
next
  case (Cons c cs)
  let ?line = "case_sum (failure_line c) (success_line c) (fst (convert_steps w dir config c s))"
  obtain s1 where e: "convert_entry w dir config c s = (Inr (), s1)"
    and l1: "logs s1 = take 20 (?line # logs s)"
    by (simp add: convert_entry_result)
  from l1 have len: "length (logs s1) \<le> 20" by (simp del: take_Cons_numeral)
  have step: "for_of (c # cs) (convert_entry w dir config) s = for_of cs (convert_entry w dir config) s1"
    using e by simp
  let ?rest = "map2 (\<lambda>candidate. case_sum (failure_line candidate) (success_line candidate))
                      cs (batch_results w dir config cs s1)"
  from Cons.IH[of s1] len
  have "logs (snd (for_of cs (convert_entry w dir config) s1)) = take 20 (rev ?rest @ logs s1)"
    by blast
  also have "\<dots> = take 20 (rev ?rest @ [?line] @ logs s)"
    unfolding l1 using take_append_take[of 20 20 "rev ?rest" "?line # logs s"] by simp
  finally have "logs (snd (for_of (c # cs) (convert_entry w dir config) s)) =
     take 20 (rev (?line # ?rest) @ logs s)" using step by simp
  moreover have "fst (for_of (c # cs) (convert_entry w dir config) s) = Inr ()"
    using step Cons.IH[of s1] by simp
  ultimately show ?case using e by simp
qed

lemma batch_results_length: "length (batch_results w dir config targets s) = length targets"
  by (induction targets arbitrary: s) simp_all

lemma ensurePermission_logs: "logs (snd (ensurePermission h mode s)) = logs s"
  by (simp add: ensurePermission_def bind_io_def host_call_dir_def host_call_def ret_io_def
      split: option.splits sum.splits prod.splits)

lemma collectImageEntries_logs: "logs (snd (collectImageEntries w dir s)) = logs s"
proof -
  obtain evs where "snd (collect_loop (fst (entries dir (trace s))) [] (s\<lparr>trace := trace s @ [Entries]\<rparr>))
      = (s\<lparr>trace := trace s @ [Entries]\<rparr>)\<lparr>trace := trace (s\<lparr>trace := trace s @ [Entries]\<rparr>) @ evs\<rparr>"
    using collect_loop_state by blast
  then show ?thesis
    by (cases "collect_loop (fst (entries dir (trace s))) [] (s\<lparr>trace := trace s @ [Entries]\<rparr>)")
      (auto simp add: collectImageEntries_unfold split: sum.splits option.splits)
qed

lemma refreshDirectory_ok:
  "fst (refreshDirectory w incoming s) = Inr () \<and> logs (snd (refreshDirectory w incoming s)) = logs s"
proof (cases "case incoming of Some h \<Rightarrow> Some h | None \<Rightarrow> directoryHandle s")
  case None
  then show ?thesis by (simp add: refreshDirectory_def)
next
  case (Some dir)
  let ?body = "bind_io (ensurePermission dir Read) (\<lambda>granted.
                  if \<not> granted then setStatus NeedReadPermission
                  else
                    bind_io (collectImageEntries w dir) (\<lambda>items.
                    bind_io (setImages items) (\<lambda>u.
                    setStatus (if items \<noteq> [] then Loaded (length items) else NothingFound))))"
  let ?s1 = "s\<lparr>isScanning := True, status := Some Loading\<rparr>"
  have inner: "logs (snd (bind_io (collectImageEntries w dir) (\<lambda>items.
                    bind_io (setImages items) (\<lambda>u.
                    setStatus (if items \<noteq> [] then Loaded (length items) else NothingFound))) s'))
                = logs s'" for s'
    by (intro bind_io_logs collectImageEntries_logs) (simp_all add: setStatus_def setImages_def)
  have body_logs: "logs (snd (?body s')) = logs s'" for s'
    by (rule bind_io_logs[OF ensurePermission_logs]) (simp add: inner setStatus_def)
  obtain r s2 where b: "?body ?s1 = (r, s2)" by (cases "?body ?s1")
  with body_logs[of ?s1] have "logs s2 = logs s" by simp
  with b Some show ?thesis
    by (cases r) (simp_all add: refreshDirectory_def bind_io_def setIsScanning_def setStatus_def
        try_finally_def try_catch_def)
qed

lemma for_of_convert_entry_nonempty:
  assumes "targets \<noteq> []"
  shows "logs (snd (for_of targets (convert_entry w dir config) s)) =
       take 20 (rev (map2 (\<lambda>candidate. case_sum (failure_line candidate) (success_line candidate))
                      targets (batch_results w dir config targets s)) @ logs s)"
proof -
  obtain c cs where t: "targets = c # cs" using assms by (cases targets) auto
  let ?line = "case_sum (failure_line c) (success_line c) (fst (convert_steps w dir config c s))"
  obtain s1 where e: "convert_entry w dir config c s = (Inr (), s1)"
    and l1: "logs s1 = take 20 (?line # logs s)"
    by (simp add: convert_entry_result)
  from l1 have len: "length (logs s1) \<le> 20" by (simp del: take_Cons_numeral)
  let ?rest = "map2 (\<lambda>candidate. case_sum (failure_line candidate) (success_line candidate))
                      cs (batch_results w dir config cs s1)"
  from for_of_convert_entry[of cs w dir config s1] len
  have "logs (snd (for_of cs (convert_entry w dir config) s1)) = take 20 (rev ?rest @ logs s1)"
    by blast
  also have "\<dots> = take 20 (rev ?rest @ [?line] @ logs s)"
    unfolding l1 using take_append_take[of 20 20 "rev ?rest" "?line # logs s"] by simp
  finally show ?thesis using e t by simp
qed

lemma handleConversion_granted:
  assumes dir: "directoryHandle s = Some dir"
    and nonempty: "filter (\<lambda>file. hasExtension (name file) (sourceExt (DIRECTION_CONFIG direction))) (images s) \<noteq> []"
    and granted: "ensurePermission dir ReadWrite s = (Inr True, s1)"
  shows "handleConversion w direction s =
     refreshDirectory w None
       ((snd (for_of (filter (\<lambda>file. hasExtension (name file) (sourceExt (DIRECTION_CONFIG direction))) (images s))
                (convert_entry w dir (DIRECTION_CONFIG direction))
                (s1\<lparr>isConverting := True,
                     status := Some (Running direction (length (filter (\<lambda>file. hasExtension (name file) (sourceExt (DIRECTION_CONFIG direction))) (images s))))\<rparr>)))
          \<lparr>status := Some Completed, isConverting := False\<rparr>)"
proof -
  let ?targets = "filter (\<lambda>file. hasExtension (name file) (sourceExt (DIRECTION_CONFIG direction))) (images s)"
  let ?s2 = "s1\<lparr>isConverting := True, status := Some (Running direction (length ?targets))\<rparr>"
  obtain s3 where loop: "for_of ?targets (convert_entry w dir (DIRECTION_CONFIG direction)) ?s2 = (Inr (), s3)"
    using for_of_convert_entry[of ?targets w dir "DIRECTION_CONFIG direction" ?s2]
    by (cases "for_of ?targets (convert_entry w dir (DIRECTION_CONFIG direction)) ?s2") auto
  show ?thesis
    using dir nonempty granted loop
    by (simp add: handleConversion_def Let_def bind_io_def setIsConverting_def setStatus_def)
qed

text \<open>
  C6. When no entry of the inventory has the source suffix of the direction (the name
  compared in lower case), the handler returns at once: it makes no call to the browser
  (no permission query or request, no read, no write), leaves the log and the inventory
  as they are, and, a directory being selected, changes nothing but the status, which is
  the "no targets" text of line 138.
\<close>

theorem handleConversion_no_targets:
  assumes "filter (\<lambda>file. hasExtension (name file) (sourceExt (DIRECTION_CONFIG direction))) (images s) = []"
  shows "fst (handleConversion w direction s) = Inr ()
       \<and> trace (snd (handleConversion w direction s)) = trace s
       \<and> logs (snd (handleConversion w direction s)) = logs s
       \<and> images (snd (handleConversion w direction s)) = images s
       \<and> (directoryHandle s \<noteq> None \<longrightarrow>
            handleConversion w direction s = (Inr (), s\<lparr>status := Some NoTargets\<rparr>))"
  using assms
  by (cases "directoryHandle s") (simp_all add: handleConversion_def Let_def setStatus_def)

text \<open>
  C2. With a directory selected and at least one matching entry, when
  \<open>ensurePermission\<close> answers false for \<open>ReadWrite\<close> the handler returns normally with
  the status of line 144. The log is unchanged, the only calls made are the permission
  query and possibly the permission request (no file is read or written), and nothing
  but the status and the trace has changed.
\<close>

theorem handleConversion_permission_denied:
  assumes dir: "directoryHandle s = Some dir"
    and nonempty: "filter (\<lambda>file. hasExtension (name file) (sourceExt (DIRECTION_CONFIG direction))) (images s) \<noteq> []"
    and denied: "fst (ensurePermission dir ReadWrite s) = Inr False"
  shows "fst (handleConversion w direction s) = Inr ()
       \<and> status (snd (handleConversion w direction s)) = Some NeedWritePermission
       \<and> logs (snd (handleConversion w direction s)) = logs s
       \<and> (trace (snd (handleConversion w direction s)) = trace s @ [QueryPermission ReadWrite]
          \<or> trace (snd (handleConversion w direction s))
               = trace s @ [QueryPermission ReadWrite, RequestPermission ReadWrite])
       \<and> snd (handleConversion w direction s)
           = s\<lparr>status := Some NeedWritePermission,
                trace := trace (snd (handleConversion w direction s))\<rparr>"
proof -
  obtain s1 where e: "ensurePermission dir ReadWrite s = (Inr False, s1)"
    using denied by (cases "ensurePermission dir ReadWrite s") simp
  have h: "handleConversion w direction s = (Inr (), s1\<lparr>status := Some NeedWritePermission\<rparr>)"
    using dir nonempty e by (simp add: handleConversion_def Let_def bind_io_def setStatus_def)
  have "s1 = s\<lparr>trace := trace s @ [QueryPermission ReadWrite]\<rparr>
      \<or> s1 = s\<lparr>trace := trace s @ [QueryPermission ReadWrite, RequestPermission ReadWrite]\<rparr>"
  proof (cases "queryPermission dir")
    case None
    then show ?thesis using e ensurePermission_missing[of dir ReadWrite s] by simp
  next
    case q: (Some query)
    show ?thesis
    proof (cases "requestPermission dir")
      case None
      then show ?thesis using e ensurePermission_missing[of dir ReadWrite s] by simp
    next
      case (Some request)
      show ?thesis using e ensurePermission_both[OF q Some, of ReadWrite s]
        by (auto split: sum.splits PermissionState.splits)
    qed
  qed
  then show ?thesis unfolding h by auto
qed

text \<open>The sub-steps of an entry complete only when each of them has answered.\<close>

lemma bind_io_Inr:
  "fst (bind_io m f s) = Inr y \<Longrightarrow> \<exists>x s1. m s = (Inr x, s1) \<and> fst (f x s1) = Inr y"
  by (cases "m s") (auto simp add: bind_io_def split: sum.splits)

lemma convert_steps_Inr:
  assumes "fst (convert_steps w dir config candidate s) = Inr (newName, blob)"
  shows "\<exists>file s1 tr newHandle writable.
           getFile (handle candidate) = Inr file
         \<and> fst (convertWithCanvas w file (mime config) s1) = Inr blob
         \<and> newName = replaceExtension (name candidate) (targetExt config)
         \<and> getFileHandle dir newName tr = Inr newHandle
         \<and> createWritable newHandle = Inr writable
         \<and> stream_write writable blob = Inr ()
         \<and> stream_close writable = Inr ()"
proof -
  from assms obtain u s1 where 1: "setStatus (Converting (name candidate)) s = (Inr u, s1)"
    and r1: "fst (bind_io (host_call (GetFile (name candidate)) (getFile (handle candidate))) (\<lambda>file.
     bind_io (convertWithCanvas w file (mime config)) (\<lambda>blob.
       let newName = replaceExtension (name candidate) (targetExt config) in
       bind_io (host_call_dir (GetFileHandle newName) (getFileHandle dir newName)) (\<lambda>newHandle.
       bind_io (host_call (CreateWritable newName) (createWritable newHandle)) (\<lambda>writable.
       bind_io (host_call (Write newName blob) (stream_write writable blob)) (\<lambda>u.
       bind_io (host_call (Close newName) (stream_close writable)) (\<lambda>u.
       ret_io (newName, blob))))))) s1) = Inr (newName, blob)"
    unfolding convert_steps_def by (blast dest: bind_io_Inr)
  from bind_io_Inr[OF r1] obtain f s2 where 2: "getFile (handle candidate) = Inr f"
    and r2: "fst (bind_io (convertWithCanvas w f (mime config)) (\<lambda>blob.
       let newName = replaceExtension (name candidate) (targetExt config) in
       bind_io (host_call_dir (GetFileHandle newName) (getFileHandle dir newName)) (\<lambda>newHandle.
       bind_io (host_call (CreateWritable newName) (createWritable newHandle)) (\<lambda>writable.
       bind_io (host_call (Write newName blob) (stream_write writable blob)) (\<lambda>u.
       bind_io (host_call (Close newName) (stream_close writable)) (\<lambda>u.
       ret_io (newName, blob)))))) s2) = Inr (newName, blob)"
    by (auto simp add: host_call_def)
  let ?n = "replaceExtension (name candidate) (targetExt config)"
  from bind_io_Inr[OF r2] obtain b s3 where 3: "convertWithCanvas w f (mime config) s2 = (Inr b, s3)"
    and r3: "fst (bind_io (host_call_dir (GetFileHandle ?n) (getFileHandle dir ?n)) (\<lambda>newHandle.
       bind_io (host_call (CreateWritable ?n) (createWritable newHandle)) (\<lambda>writable.
       bind_io (host_call (Write ?n b) (stream_write writable b)) (\<lambda>u.
       bind_io (host_call (Close ?n) (stream_close writable)) (\<lambda>u.
       ret_io (?n, b))))) s3) = Inr (newName, blob)"
    by (auto simp add: Let_def)
  from bind_io_Inr[OF r3] obtain newHandle s4 where 4: "getFileHandle dir ?n (trace s3) = Inr newHandle"
    and r4: "fst (bind_io (host_call (CreateWritable ?n) (createWritable newHandle)) (\<lambda>writable.
       bind_io (host_call (Write ?n b) (stream_write writable b)) (\<lambda>u.
       bind_io (host_call (Close ?n) (stream_close writable)) (\<lambda>u.
       ret_io (?n, b)))) s4) = Inr (newName, blob)"
    by (auto simp add: host_call_dir_def host_call_def)
  from bind_io_Inr[OF r4] obtain writable s5 where 5: "createWritable newHandle = Inr writable"
    and r5: "fst (bind_io (host_call (Write ?n b) (stream_write writable b)) (\<lambda>u.
       bind_io (host_call (Close ?n) (stream_close writable)) (\<lambda>u.
       ret_io (?n, b))) s5) = Inr (newName, blob)"
    by (auto simp add: host_call_def)
  from bind_io_Inr[OF r5] obtain s6 where 6: "stream_write writable b = Inr ()"
    and r6: "fst (bind_io (host_call (Close ?n) (stream_close writable)) (\<lambda>u.
       ret_io (?n, b)) s6) = Inr (newName, blob)"
    by (auto simp add: host_call_def)
  from bind_io_Inr[OF r6] have 7: "stream_close writable = Inr ()" and 8: "newName = ?n" "blob = b"
    by (auto simp add: host_call_def ret_io_def)
  from 2 3 4 5 6 7 8 show ?thesis by (metis fst_conv)
qed

text \<open>
  C1. The body of the loop never throws: when a sub-step of an entry throws, the log
  gets the failure line of that entry; it gets the success line when the sub-steps
  complete, which they do only when the read, the conversion, the new file handle, the
  stream, the write and the close have all answered.
  With a directory selected, a non-empty batch and write permission granted, the handler
  returns normally (the rescan included), and the log gets one line for each entry of
  the batch, in the order of the batch, the newest first, in front of the lines it had,
  20 lines being kept. For a batch of three entries of which the second fails the log
  starts with exactly three new lines: success, failure, success, read from the oldest.
\<close>

theorem handleConversion_isolates_failures:
  assumes dir: "directoryHandle s = Some dir"
    and targets: "targets = filter (\<lambda>file. hasExtension (name file) (sourceExt (DIRECTION_CONFIG direction))) (images s)"
    and nonempty: "targets \<noteq> []"
    and granted: "ensurePermission dir ReadWrite s = (Inr True, s1)"
    and start: "s2 = s1\<lparr>isConverting := True, status := Some (Running direction (length targets))\<rparr>"
    and results: "results = batch_results w dir (DIRECTION_CONFIG direction) targets s2"
  shows "fst (convert_entry w dir config candidate s') = Inr ()
       \<and> (\<forall>error. fst (convert_steps w dir config candidate s') = Inl error \<longrightarrow>
            logs (snd (convert_entry w dir config candidate s')) =
              take 20 (LogFailure (name candidate) (message_or ConversionFailed error) # logs s'))
       \<and> (\<forall>newName blob. fst (convert_steps w dir config candidate s') = Inr (newName, blob) \<longrightarrow>
            logs (snd (convert_entry w dir config candidate s')) =
              take 20 (LogSuccess (name candidate) newName (blob_size blob) # logs s')
            \<and> (\<exists>file s1 tr newHandle writable.
                  getFile (handle candidate) = Inr file
                \<and> fst (convertWithCanvas w file (mime config) s1) = Inr blob
                \<and> newName = replaceExtension (name candidate) (targetExt config)
                \<and> getFileHandle dir newName tr = Inr newHandle
                \<and> createWritable newHandle = Inr writable
                \<and> stream_write writable blob = Inr ()
                \<and> stream_close writable = Inr ()))
       \<and> fst (handleConversion w direction s) = Inr ()
       \<and> length results = length targets
       \<and> logs (snd (handleConversion w direction s)) =
           take 20 (rev (map2 (\<lambda>candidate. case_sum (failure_line candidate) (success_line candidate))
                          targets results) @ logs s)
       \<and> (\<forall>c1 c2 c3 d1 e2 d3.
             targets = [c1, c2, c3] \<and> results = [Inr d1, Inl e2, Inr d3] \<longrightarrow>
             logs (snd (handleConversion w direction s)) =
               [success_line c3 d3, failure_line c2 e2, success_line c1 d1] @ take 17 (logs s))"
proof -
  let ?config = "DIRECTION_CONFIG direction"
  have h: "handleConversion w direction s =
      refreshDirectory w None
        ((snd (for_of targets (convert_entry w dir ?config) s2))\<lparr>status := Some Completed, isConverting := False\<rparr>)"
    using handleConversion_granted[OF dir _ granted, of direction w] nonempty
    unfolding targets start by simp
  have l1: "logs s2 = logs s"
    using ensurePermission_logs[of dir ReadWrite s] granted by (simp add: start)
  have ok: "fst (handleConversion w direction s) = Inr ()"
    unfolding h using refreshDirectory_ok by blast
  have lg: "logs (snd (handleConversion w direction s)) =
           take 20 (rev (map2 (\<lambda>candidate. case_sum (failure_line candidate) (success_line candidate))
                          targets results) @ logs s)"
    unfolding h results
    using refreshDirectory_ok[of w None] for_of_convert_entry_nonempty[OF nonempty, of w dir ?config s2]
    by (simp add: l1)
  have three: "logs (snd (handleConversion w direction s)) =
               [success_line c3 d3, failure_line c2 e2, success_line c1 d1] @ take 17 (logs s)"
    if "targets = [c1, c2, c3] \<and> results = [Inr d1, Inl e2, Inr d3]" for c1 c2 c3 d1 e2 d3
    unfolding lg using that by simp
  have entry: "fst (convert_entry w dir config candidate s') = Inr ()"
    by (simp add: convert_entry_result)
  have fail: "logs (snd (convert_entry w dir config candidate s')) =
              take 20 (LogFailure (name candidate) (message_or ConversionFailed error) # logs s')"
    if "fst (convert_steps w dir config candidate s') = Inl error" for error
    using that by (simp add: convert_entry_result failure_line_def del: take_Cons_numeral)
  have succ: "logs (snd (convert_entry w dir config candidate s')) =
              take 20 (LogSuccess (name candidate) newName (blob_size blob) # logs s')"
    if "fst (convert_steps w dir config candidate s') = Inr (newName, blob)" for newName blob
    using that by (simp add: convert_entry_result success_line_def del: take_Cons_numeral)
  have len: "length results = length targets" by (simp add: results batch_results_length)
  have steps: "\<exists>file s1 tr newHandle writable.
                  getFile (handle candidate) = Inr file
                \<and> fst (convertWithCanvas w file (mime config) s1) = Inr blob
                \<and> newName = replaceExtension (name candidate) (targetExt config)
                \<and> getFileHandle dir newName tr = Inr newHandle
                \<and> createWritable newHandle = Inr writable
                \<and> stream_write writable blob = Inr ()
                \<and> stream_close writable = Inr ()"
    if "fst (convert_steps w dir config candidate s') = Inr (newName, blob)" for newName blob
    using that by (rule convert_steps_Inr)
  from succ steps
  have succ': "\<forall>newName blob. fst (convert_steps w dir config candidate s') = Inr (newName, blob) \<longrightarrow>
            logs (snd (convert_entry w dir config candidate s')) =
              take 20 (LogSuccess (name candidate) newName (blob_size blob) # logs s')
            \<and> (\<exists>file s1 tr newHandle writable.
                  getFile (handle candidate) = Inr file
                \<and> fst (convertWithCanvas w file (mime config) s1) = Inr blob
                \<and> newName = replaceExtension (name candidate) (targetExt config)
                \<and> getFileHandle dir newName tr = Inr newHandle
                \<and> createWritable newHandle = Inr writable
                \<and> stream_write writable blob = Inr ()
                \<and> stream_close writable = Inr ())"
    by blast
  from fail have fail': "\<forall>error. fst (convert_steps w dir config candidate s') = Inl error \<longrightarrow>
            logs (snd (convert_entry w dir config candidate s')) =
              take 20 (LogFailure (name candidate) (message_or ConversionFailed error) # logs s')"
    by blast
  from three have three': "\<forall>c1 c2 c3 d1 e2 d3.
             targets = [c1, c2, c3] \<and> results = [Inr d1, Inl e2, Inr d3] \<longrightarrow>
             logs (snd (handleConversion w direction s)) =
               [success_line c3 d3, failure_line c2 e2, success_line c1 d1] @ take 17 (logs s)"
    by blast
  from entry fail' succ' ok len lg three' show ?thesis by (intro conjI)
qed

subsection \<open>The batch on the example browser\<close>

lemma demo_extensions:
  "hasExtension ''a.png'' ''.png''" "hasExtension ''b.png'' ''.png''" "hasExtension ''c.png'' ''.png''"
  "\<not> hasExtension ''d.webp'' ''.png''" "\<not> hasExtension ''a.png'' ''.webp''"
  by code_simp+

lemma demo_targets:
  "filter (\<lambda>file. hasExtension (name file) ''.png'') (images (scanned dir)) =
     [entry_of ''a.png'' \<lparr>getFile = Inr png_file\<rparr> png_file,
      entry_of ''b.png'' \<lparr>getFile = Inr short_png_file\<rparr> short_png_file,
      entry_of ''c.png'' \<lparr>getFile = Inr png_file\<rparr> png_file]"
  by (simp add: scanned_def s0_def entry_of_def demo_extensions)

theorem handleConversion_no_targets_witness:
  "filter (\<lambda>file. hasExtension (name file) (sourceExt (DIRECTION_CONFIG WebpToPng)))
      (images ((scanned demo_dir)\<lparr>images := [entry_of ''a.png'' \<lparr>getFile = Inr png_file\<rparr> png_file]\<rparr>)) = []
   \<and> handleConversion demo_window WebpToPng
        ((scanned demo_dir)\<lparr>images := [entry_of ''a.png'' \<lparr>getFile = Inr png_file\<rparr> png_file]\<rparr>)
      = (Inr (), (scanned demo_dir)\<lparr>images := [entry_of ''a.png'' \<lparr>getFile = Inr png_file\<rparr> png_file],
                                     status := Some NoTargets\<rparr>)"
proof -
  let ?s = "(scanned demo_dir)\<lparr>images := [entry_of ''a.png'' \<lparr>getFile = Inr png_file\<rparr> png_file]\<rparr>"
  have f: "filter (\<lambda>file. hasExtension (name file) (sourceExt (DIRECTION_CONFIG WebpToPng))) (images ?s) = []"
    by (simp add: entry_of_def demo_extensions)
  have d: "directoryHandle ?s \<noteq> None" by (simp add: scanned_def)
  from handleConversion_no_targets[OF f, of demo_window] d f show ?thesis by simp
qed

lemma denied_permission:
  "ensurePermission denied_dir ReadWrite (scanned denied_dir) =
     (Inr False, (scanned denied_dir)\<lparr>trace := trace (scanned denied_dir) @ [QueryPermission ReadWrite]\<rparr>)"
  by (simp add: ensurePermission_def denied_dir_def demo_dir_def bind_io_def host_call_dir_def
      host_call_def ret_io_def)

theorem handleConversion_permission_denied_witness:
  "handleConversion demo_window PngToWebp (scanned denied_dir) =
     (Inr (), (scanned denied_dir)\<lparr>status := Some NeedWritePermission,
                trace := trace (scanned denied_dir) @ [QueryPermission ReadWrite]\<rparr>)
   \<and> logs (snd (handleConversion demo_window PngToWebp (scanned denied_dir))) = []"
proof -
  have d: "directoryHandle (scanned denied_dir) = Some denied_dir" by (simp add: scanned_def)
  have n: "filter (\<lambda>file. hasExtension (name file) (sourceExt (DIRECTION_CONFIG PngToWebp)))
             (images (scanned denied_dir)) \<noteq> []"
    by (simp add: demo_targets)
  have p: "fst (ensurePermission denied_dir ReadWrite (scanned denied_dir)) = Inr False"
    by (simp add: denied_permission)
  have l: "logs (scanned denied_dir) = []" by (simp add: scanned_def s0_def)
  have "RequestPermission ReadWrite \<notin> set (trace (snd (handleConversion demo_window PngToWebp (scanned denied_dir))))"
    using d n denied_permission
    by (simp add: handleConversion_def Let_def bind_io_def setStatus_def scanned_def)
  with handleConversion_permission_denied[OF d n p, of demo_window] l
  show ?thesis by (auto simp add: prod_eq_iff)
qed


lemma demo_granted:
  "ensurePermission demo_dir ReadWrite (scanned demo_dir) =
     (Inr True, (scanned demo_dir)\<lparr>trace := trace (scanned demo_dir)
                  @ [QueryPermission ReadWrite, RequestPermission ReadWrite]\<rparr>)"
  by (simp add: ensurePermission_def demo_dir_def demo_query_def bind_io_def host_call_dir_def
      host_call_def ret_io_def scanned_def)

lemma demo_new_names:
  "replaceExtension ''a.png'' ''.webp'' = ''a.webp''"
  "replaceExtension ''b.png'' ''.webp'' = ''b.webp''"
  "replaceExtension ''c.png'' ''.webp'' = ''c.webp''"
  by (simp_all add: replaceExtension_def)

lemma demo_convert_ok:
  "getFile (handle candidate) = Inr png_file \<Longrightarrow> mime config = ''image/webp'' \<Longrightarrow>
   fst (convert_steps demo_window demo_dir config candidate s) =
     Inr (replaceExtension (name candidate) (targetExt config),
          \<lparr>blob_size = 64, blob_type = ''image/webp''\<rparr>)"
  by (simp add: convert_steps_def convertWithCanvas_def rasterize_def canvasToBlob_result
      demo_window_def demo_toBlob_def demo_dir_def ok_stream_def png_file_def bind_io_def
      host_call_dir_def host_call_def ret_io_def throw_io_def setStatus_def Let_def)

lemma demo_convert_short:
  "getFile (handle candidate) = Inr short_png_file \<Longrightarrow>
   fst (convert_steps demo_window demo_dir config candidate s) =
     Inl (Error (HostMessage ''The source image could not be decoded.''))"
  by (simp add: convert_steps_def convertWithCanvas_def rasterize_def
      demo_window_def short_png_file_def bind_io_def
      host_call_def ret_io_def setStatus_def Let_def)

lemma demo_batch:
  "batch_results demo_window demo_dir (DIRECTION_CONFIG PngToWebp)
     [entry_of ''a.png'' \<lparr>getFile = Inr png_file\<rparr> png_file,
      entry_of ''b.png'' \<lparr>getFile = Inr short_png_file\<rparr> short_png_file,
      entry_of ''c.png'' \<lparr>getFile = Inr png_file\<rparr> png_file] s =
     [Inr (''a.webp'', \<lparr>blob_size = 64, blob_type = ''image/webp''\<rparr>),
      Inl (Error (HostMessage ''The source image could not be decoded.'')),
      Inr (''c.webp'', \<lparr>blob_size = 64, blob_type = ''image/webp''\<rparr>)]"
  by (simp add: demo_convert_ok demo_convert_short demo_new_names entry_of_def)

theorem handleConversion_isolates_failures_witness:
  "fst (handleConversion demo_window PngToWebp (scanned demo_dir)) = Inr ()
   \<and> logs (snd (handleConversion demo_window PngToWebp (scanned demo_dir))) =
       [LogSuccess ''c.png'' ''c.webp'' 64,
        LogFailure ''b.png'' (HostMessage ''The source image could not be decoded.''),
        LogSuccess ''a.png'' ''a.webp'' 64]"
proof -
  define a where "a = entry_of ''a.png'' \<lparr>getFile = Inr png_file\<rparr> png_file"
  define b where "b = entry_of ''b.png'' \<lparr>getFile = Inr short_png_file\<rparr> short_png_file"
  define c where "c = entry_of ''c.png'' \<lparr>getFile = Inr png_file\<rparr> png_file"
  define s2 where "s2 = (scanned demo_dir)\<lparr>trace := trace (scanned demo_dir)
                  @ [QueryPermission ReadWrite, RequestPermission ReadWrite],
                isConverting := True, status := Some (Running PngToWebp (length [a, b, c]))\<rparr>"
  define blob :: Blob where "blob = \<lparr>blob_size = 64, blob_type = ''image/webp''\<rparr>"
  define e where "e = Error (HostMessage ''The source image could not be decoded.'')"
  have d: "directoryHandle (scanned demo_dir) = Some demo_dir" by (simp add: scanned_def)
  have t: "[a, b, c] = filter (\<lambda>file. hasExtension (name file) (sourceExt (DIRECTION_CONFIG PngToWebp)))
             (images (scanned demo_dir))"
    by (simp add: demo_targets a_def b_def c_def)
  have n: "[a, b, c] \<noteq> []" by simp
  have l: "logs (scanned demo_dir) = []" by (simp add: scanned_def s0_def)
  have r: "batch_results demo_window demo_dir (DIRECTION_CONFIG PngToWebp) [a, b, c] s2
            = [Inr (''a.webp'', blob), Inl e, Inr (''c.webp'', blob)]"
    unfolding a_def b_def c_def blob_def e_def by (rule demo_batch)
  have s: "s2 = (scanned demo_dir)\<lparr>trace := trace (scanned demo_dir)
                  @ [QueryPermission ReadWrite, RequestPermission ReadWrite]\<rparr>
                \<lparr>isConverting := True, status := Some (Running PngToWebp (length [a, b, c]))\<rparr>"
    by (simp add: s2_def)
  note run = handleConversion_isolates_failures[OF d t n demo_granted s refl, of demo_window]
  from run have ok: "fst (handleConversion demo_window PngToWebp (scanned demo_dir)) = Inr ()"
    by blast
  from run r have "logs (snd (handleConversion demo_window PngToWebp (scanned demo_dir))) =
      [success_line c (''c.webp'', blob), failure_line b e, success_line a (''a.webp'', blob)]
        @ take 17 (logs (scanned demo_dir))"
    by blast
  then have "logs (snd (handleConversion demo_window PngToWebp (scanned demo_dir))) =
       [LogSuccess ''c.png'' ''c.webp'' 64,
        LogFailure ''b.png'' (HostMessage ''The source image could not be decoded.''),
        LogSuccess ''a.png'' ''a.webp'' 64]"
    by (simp add: l success_line_def failure_line_def message_or_def entry_of_def
        a_def b_def c_def blob_def e_def)
  with ok show ?thesis by blast
qed

end
